theory Spec2Isabelle
  imports Complex_Main "HOL-Library.Sublist"
begin

section \<open>Strings\<close>

text \<open>
  A JavaScript string is a sequence of UTF-16 code units; \<open>length\<close>, \<open>charAt\<close>, \<open>slice\<close>
  and the regular expressions of \<^verbatim>\<open>api.ts\<close> (none has the \<^verbatim>\<open>u\<close> flag) all work on code
  units. A string is therefore a list of code units, each a natural number. \<open>js\<close> reads
  an ASCII literal as such a list.
\<close>

type_synonym jstring = "nat list"

definition js :: "string \<Rightarrow> jstring" where
  "js s = map of_char s"

text \<open>
  The character classes of the regular expressions. \<^verbatim>\<open>\s\<close> and \<^verbatim>\<open>trim()\<close> use the same
  set: ECMAScript WhiteSpace and LineTerminator. \<^verbatim>\<open>.\<close> is any code unit but a line
  terminator. \<^verbatim>\<open>\b\<close> is a boundary of \<^verbatim>\<open>[A-Za-z0-9_]\<close>.
\<close>

definition isWhiteSpace :: "nat \<Rightarrow> bool" where
  "isWhiteSpace c \<longleftrightarrow>
     c \<in> set [9, 10, 11, 12, 13, 32, 160, 5760, 8232, 8233, 8239, 8287, 12288, 65279]
     \<or> (8192 \<le> c \<and> c \<le> 8202)"

definition isLineTerminator :: "nat \<Rightarrow> bool" where
  "isLineTerminator c \<longleftrightarrow> c \<in> set [10, 13, 8232, 8233]"

definition isDigit :: "nat \<Rightarrow> bool" where
  "isDigit c \<longleftrightarrow> 48 \<le> c \<and> c \<le> 57"

definition isLower :: "nat \<Rightarrow> bool" where
  "isLower c \<longleftrightarrow> 97 \<le> c \<and> c \<le> 122"

definition isUpper :: "nat \<Rightarrow> bool" where
  "isUpper c \<longleftrightarrow> 65 \<le> c \<and> c \<le> 90"

definition isLetter :: "nat \<Rightarrow> bool" where
  "isLetter c \<longleftrightarrow> isLower c \<or> isUpper c"

definition isWordChar :: "nat \<Rightarrow> bool" where
  "isWordChar c \<longleftrightarrow> isLetter c \<or> isDigit c \<or> c = 95"

text \<open>
  Upper-casing. On ASCII it is \<^verbatim>\<open>a-z\<close> to \<^verbatim>\<open>A-Z\<close>. Beyond ASCII
  \<^verbatim>\<open>String.prototype.toUpperCase\<close> follows the Unicode case tables, which are not part
  of the repository: the image of a single non-ASCII code unit (one or more code units)
  is the parameter \<open>U\<close> of every function that upper-cases.

  A regular expression with the \<^verbatim>\<open>i\<close> flag compares canonicalised code units. The
  canonical form of an ASCII code unit is \<open>asciiUpper\<close>, and a non-ASCII code unit is
  never canonicalised to an ASCII one, so against the ASCII patterns of \<^verbatim>\<open>api.ts\<close>
  the comparison is \<open>asciiUpper p = asciiUpper c\<close>.
\<close>

definition asciiUpper :: "nat \<Rightarrow> nat" where
  "asciiUpper c = (if isLower c then c - 32 else c)"

definition toUpperCase1 :: "(nat \<Rightarrow> jstring) \<Rightarrow> nat \<Rightarrow> jstring" where
  "toUpperCase1 U c = (if c < 128 then [asciiUpper c] else U c)"

text \<open>For concrete instances: the case table that leaves every non-ASCII code unit as it is.\<close>

definition keepCase :: "nat \<Rightarrow> jstring" where
  "keepCase c = [c]"

definition trim :: "jstring \<Rightarrow> jstring" where
  "trim s = rev (dropWhile isWhiteSpace (rev (dropWhile isWhiteSpace s)))"

fun startsWithCI :: "jstring \<Rightarrow> jstring \<Rightarrow> bool" where
  "startsWithCI [] s = True"
| "startsWithCI (p # ps) [] = False"
| "startsWithCI (p # ps) (c # cs) = (asciiUpper p = asciiUpper c \<and> startsWithCI ps cs)"

fun containsCI :: "jstring \<Rightarrow> jstring \<Rightarrow> bool" where
  "containsCI w [] = startsWithCI w []"
| "containsCI w (c # cs) = (startsWithCI w (c # cs) \<or> containsCI w cs)"

section \<open>Step extraction\<close>

text \<open>\<^verbatim>\<open>text.replace(/\s+/g, ' ')\<close>: every maximal run of white space becomes one space.\<close>

function collapseWhiteSpace :: "jstring \<Rightarrow> jstring" where
  "collapseWhiteSpace [] = []"
| "collapseWhiteSpace (c # cs) =
     (if isWhiteSpace c then 32 # collapseWhiteSpace (dropWhile isWhiteSpace cs)
      else c # collapseWhiteSpace cs)"
  by pat_completeness auto
termination
  by (relation "measure length") (auto simp: length_dropWhile_le less_Suc_eq_le)

text \<open>
  \<^verbatim>\<open>.split(/(?<=[.!?])\s+/)\<close>: the string is cut at every run of white space that
  follows \<^verbatim>\<open>.\<close>, \<^verbatim>\<open>!\<close> or \<^verbatim>\<open>?\<close>; the run is removed. The first argument is the piece
  being read, reversed, so that its head is the code unit before the current position;
  at the start of a piece that code unit is none or the end of a separator, never a
  sentence end. A separator at the very end leaves an empty last piece, as in
  JavaScript.
\<close>

definition isSentenceEnd :: "nat \<Rightarrow> bool" where
  "isSentenceEnd c \<longleftrightarrow> c \<in> set [46, 33, 63]"

function splitSentences :: "jstring \<Rightarrow> jstring \<Rightarrow> jstring list" where
  "splitSentences acc [] = [rev acc]"
| "splitSentences acc (c # cs) =
     (if isWhiteSpace c \<and> (case acc of [] \<Rightarrow> False | p # _ \<Rightarrow> isSentenceEnd p)
      then rev acc # splitSentences [] (dropWhile isWhiteSpace cs)
      else splitSentences (c # acc) cs)"
  by pat_completeness auto
termination
  by (relation "measure (\<lambda>(acc, s). length s)") (auto simp: length_dropWhile_le less_Suc_eq_le)

definition sentencesOf :: "jstring \<Rightarrow> jstring list" where
  "sentencesOf t =
     filter (\<lambda>s. s \<noteq> []) (map trim (splitSentences [] (collapseWhiteSpace t)))"

text \<open>The cue expression: an unanchored, case-insensitive alternation of twenty words.\<close>

definition cueWords :: "jstring list" where
  "cueWords = map js [''add'', ''mix'', ''stir'', ''combine'', ''cook'', ''bake'', ''boil'',
     ''simmer'', ''fry'', ''heat'', ''season'', ''chop'', ''slice'', ''blend'', ''pour'',
     ''spread'', ''press'', ''marinate'', ''assemble'', ''serve'']"

definition cues :: "jstring \<Rightarrow> bool" where
  "cues s = list_ex (\<lambda>w. containsCI w s) cueWords"

text \<open>
  \<^verbatim>\<open>s.replace(/^\d+[:\.)]\s*/, '')\<close>: a leading run of digits followed by \<^verbatim>\<open>:\<close>, \<^verbatim>\<open>.\<close> or
  \<^verbatim>\<open>)\<close> is removed with the white space after it. The digit run is greedy, and giving
  digits back cannot help, since the next code unit would be a digit.
\<close>

definition stripStepNumber :: "jstring \<Rightarrow> jstring" where
  "stripStepNumber s =
     (case dropWhile isDigit s of
        [] \<Rightarrow> s
      | c # r \<Rightarrow> if takeWhile isDigit s \<noteq> [] \<and> c \<in> set [58, 46, 41]
                then dropWhile isWhiteSpace r else s)"

definition capitalize :: "(nat \<Rightarrow> jstring) \<Rightarrow> jstring \<Rightarrow> jstring" where
  "capitalize U s = (case s of [] \<Rightarrow> [] | c # cs \<Rightarrow> toUpperCase1 U c @ cs)"

text \<open>\<^verbatim>\<open>s.replace(/^([a-z])/, m => m.toUpperCase())\<close>.\<close>

definition upperFirstLower :: "jstring \<Rightarrow> jstring" where
  "upperFirstLower s = (case s of [] \<Rightarrow> [] | c # cs \<Rightarrow> (if isLower c then c - 32 else c) # cs)"

text \<open>
  The loop over the sentences. The length test follows every sentence, picked or not,
  as in the source.
\<close>

fun pickSteps :: "(nat \<Rightarrow> jstring) \<Rightarrow> jstring list \<Rightarrow> jstring list \<Rightarrow> jstring list" where
  "pickSteps U picked [] = picked"
| "pickSteps U picked (s # ss) =
     (let picked' = (if cues s then picked @ [capitalize U (stripStepNumber s)] else picked)
      in if length picked' \<ge> 12 then picked' else pickSteps U picked' ss)"

definition extractSteps :: "(nat \<Rightarrow> jstring) \<Rightarrow> jstring \<Rightarrow> jstring list" where
  "extractSteps U t =
     (if t = [] then [js ''Review ingredients and steps from the video.'']
      else let sentences = sentencesOf t;
               picked = pickSteps U [] sentences;
               picked' = (if picked = []
                          then [case sentences of
                                  [] \<Rightarrow> js ''Follow the video steps.''
                                | s # _ \<Rightarrow> if s = [] then js ''Follow the video steps.'' else s]
                          else picked)
           in map upperFirstLower picked')"

section \<open>Ingredient extraction\<close>

text \<open>
  \<^verbatim>\<open>.split(/\r?\n/)\<close>: the string is cut at every line feed, and a carriage return just
  before the line feed belongs to the separator.
\<close>

fun splitLines :: "jstring \<Rightarrow> jstring \<Rightarrow> jstring list" where
  "splitLines acc [] = [rev acc]"
| "splitLines acc [c] = (if c = 10 then [rev acc, []] else [rev (c # acc)])"
| "splitLines acc (c # d # cs) =
     (if c = 10 then rev acc # splitLines [] (d # cs)
      else if c = 13 \<and> d = 10 then rev acc # splitLines [] cs
      else splitLines (c # acc) (d # cs))"

definition linesOf :: "jstring \<Rightarrow> jstring list" where
  "linesOf d = filter (\<lambda>l. l \<noteq> []) (map trim (splitLines [] d))"

text \<open>
  A word \<open>w\<close> at the start of \<open>l\<close>, compared without case, followed by \<^verbatim>\<open>\b\<close>: the
  words used end in a letter, so the boundary holds when \<open>l\<close> ends there or goes on
  with a code unit outside \<^verbatim>\<open>[A-Za-z0-9_]\<close>.
\<close>

definition startsWithWordCI :: "jstring \<Rightarrow> jstring \<Rightarrow> bool" where
  "startsWithWordCI w l \<longleftrightarrow>
     startsWithCI w l \<and> (case drop (length w) l of [] \<Rightarrow> True | c # _ \<Rightarrow> \<not> isWordChar c)"

text \<open>\<^verbatim>\<open>/^ingredients\b|^ingredientes\b/i\<close>\<close>

definition isIngredientsHeader :: "jstring \<Rightarrow> bool" where
  "isIngredientsHeader l \<longleftrightarrow>
     startsWithWordCI (js ''ingredients'') l \<or> startsWithWordCI (js ''ingredientes'') l"

text \<open>\<^verbatim>\<open>lines.findIndex(...)\<close> and \<^verbatim>\<open>startIdx >= 0 ? lines.slice(startIdx + 1) : lines\<close>\<close>

definition candidatesOf :: "jstring list \<Rightarrow> jstring list" where
  "candidatesOf ls =
     (case dropWhile (\<lambda>l. \<not> isIngredientsHeader l) ls of [] \<Rightarrow> ls | h # rest \<Rightarrow> rest)"

text \<open>\<^verbatim>\<open>/^\s*-{2,}\s*$/\<close>\<close>

definition isSeparator :: "jstring \<Rightarrow> bool" where
  "isSeparator l \<longleftrightarrow>
     (let r = dropWhile isWhiteSpace l
      in length (takeWhile (\<lambda>c. c = 45) r) \<ge> 2
         \<and> list_all isWhiteSpace (dropWhile (\<lambda>c. c = 45) r))"

text \<open>\<^verbatim>\<open>/^\s*(instructions|method|directions)\b/i\<close>\<close>

definition isInstructionsHeader :: "jstring \<Rightarrow> bool" where
  "isInstructionsHeader l \<longleftrightarrow>
     (let r = dropWhile isWhiteSpace l
      in startsWithWordCI (js ''instructions'') r \<or> startsWithWordCI (js ''method'') r
         \<or> startsWithWordCI (js ''directions'') r)"

text \<open>\<^verbatim>\<open>/[a-zA-Z]/.test(line)\<close>\<close>

definition hasLetter :: "jstring \<Rightarrow> bool" where
  "hasLetter l = list_ex isLetter l"

text \<open>
  The line pattern
  \<^verbatim>\<open>/^([0-9]+(?:\.[0-9]+)?)\s*([a-zA-Z..]+)?\s*(.+)$/\<close>
  (where the class of group 2 also holds the micro sign U+00B5 and the Greek mu U+03BC)
  is matched by backtracking, and which groups the match reports depends on the order
  in which the alternatives are tried. \<open>greedy lo n k\<close> is a greedy quantifier that
  can take at most \<open>n\<close> and at least \<open>lo\<close> code units: it tries the continuation \<open>k\<close>
  with \<open>n\<close>, then \<open>n - 1\<close>, down to \<open>lo\<close>, and keeps the first success. \<open>orElse\<close> is
  an optional group: with the group first, then without it.
\<close>

fun greedy :: "nat \<Rightarrow> nat \<Rightarrow> (nat \<Rightarrow> 'a option) \<Rightarrow> 'a option" where
  "greedy lo 0 k = (if lo = 0 then k 0 else None)"
| "greedy lo (Suc n) k =
     (if Suc n < lo then None
      else case k (Suc n) of Some r \<Rightarrow> Some r | None \<Rightarrow> greedy lo n k)"

definition orElse :: "'a option \<Rightarrow> 'a option \<Rightarrow> 'a option" where
  "orElse a b = (case a of Some r \<Rightarrow> Some r | None \<Rightarrow> b)"

definition isUnitChar :: "nat \<Rightarrow> bool" where
  "isUnitChar c \<longleftrightarrow> isLetter c \<or> c = 181 \<or> c = 956"

text \<open>\<^verbatim>\<open>\s*(.+)$\<close>: the item is what is left, not empty and free of line terminators.\<close>

definition matchItem :: "jstring \<Rightarrow> jstring option \<Rightarrow> jstring
    \<Rightarrow> (jstring \<times> jstring option \<times> jstring) option" where
  "matchItem num u r =
     greedy 0 (length (takeWhile isWhiteSpace r)) (\<lambda>k.
       let item = drop k r
       in if item \<noteq> [] \<and> \<not> list_ex isLineTerminator item then Some (num, u, item) else None)"

text \<open>\<^verbatim>\<open>\s*([a-zA-Z..]+)?\<close> and the rest.\<close>

definition matchUnit :: "jstring \<Rightarrow> jstring \<Rightarrow> (jstring \<times> jstring option \<times> jstring) option" where
  "matchUnit num r =
     greedy 0 (length (takeWhile isWhiteSpace r)) (\<lambda>k.
       let r' = drop k r
       in orElse
            (greedy 1 (length (takeWhile isUnitChar r')) (\<lambda>j.
               matchItem num (Some (take j r')) (drop j r')))
            (matchItem num None r'))"

text \<open>\<^verbatim>\<open>^([0-9]+(?:\.[0-9]+)?)\<close> and the rest. The result is the groups 1, 2 and 3.\<close>

definition ingredientPattern :: "jstring \<Rightarrow> (jstring \<times> jstring option \<times> jstring) option" where
  "ingredientPattern l =
     greedy 1 (length (takeWhile isDigit l)) (\<lambda>i.
       let r = drop i l
       in orElse
            (case r of
               [] \<Rightarrow> None
             | c # f \<Rightarrow>
                 if c = 46
                 then greedy 1 (length (takeWhile isDigit f)) (\<lambda>j.
                        matchUnit (take (i + 1 + j) l) (drop j f))
                 else None)
            (matchUnit (take i l) r))"

text \<open>
  A JavaScript number is an IEEE 754 double. The numbers that arise here are not
  negative: a finite double, given by its exact rational value, or \<^verbatim>\<open>Infinity\<close>.
\<close>

datatype double = Finite rat | Infinity

text \<open>
  \<open>toDouble a b\<close> is the double nearest to the fraction \<open>a / b\<close> (for \<open>b > 0\<close>),
  ties to the even significand. \<open>bitLength\<close> is the number of binary digits, and
  \<open>floorLog2 a b\<close> is the \<open>k\<close> with \<open>2 ^ k \<le> a / b < 2 ^ (k + 1)\<close>. A double in that
  binade is a multiple of \<open>2 ^ (k - 52)\<close>, and no double is finer than \<open>2 ^ -1074\<close>:
  the fraction is rounded to a multiple \<open>m\<close> of that unit, by \<open>roundHalfEven\<close> on
  integers. A result of \<open>2 ^ 1024\<close> or more is \<^verbatim>\<open>Infinity\<close>.
\<close>

function bitLength :: "nat \<Rightarrow> nat" where
  "bitLength k = (if k = 0 then 0 else Suc (bitLength (k div 2)))"
  by pat_completeness auto
termination
  by (relation "measure id") auto

definition pow2 :: "int \<Rightarrow> rat" where
  "pow2 e = (if 0 \<le> e then 2 ^ nat e else 1 / 2 ^ nat (- e))"

definition floorLog2 :: "nat \<Rightarrow> nat \<Rightarrow> int" where
  "floorLog2 a b =
     (let k = int (bitLength a) - int (bitLength b)
      in if pow2 k * of_nat b \<le> of_nat a then k else k - 1)"

definition roundHalfEven :: "nat \<Rightarrow> nat \<Rightarrow> nat" where
  "roundHalfEven a b =
     (if 2 * (a mod b) < b then a div b
      else if b < 2 * (a mod b) then a div b + 1
      else if even (a div b) then a div b else a div b + 1)"

definition toDouble :: "nat \<Rightarrow> nat \<Rightarrow> double" where
  "toDouble a b =
     (if a = 0 then Finite 0
      else let e = max (floorLog2 a b - 52) (- 1074);
               m = (if 0 \<le> e then roundHalfEven a (b * 2 ^ nat e)
                    else roundHalfEven (a * 2 ^ nat (- e)) b)
           in if 2 ^ 1024 \<le> of_nat m * pow2 e then Infinity else Finite (of_nat m * pow2 e))"

text \<open>
  \<^verbatim>\<open>Number(m[1])\<close> on a string of the shape \<^verbatim>\<open>digits\<close> or \<^verbatim>\<open>digits.digits\<close>: the double
  nearest to the decimal value, which is all the digits read as one integer over a
  power of ten. (ECMAScript lets an implementation drop digits after the twentieth
  significant one; V8, which runs this code, rounds the exact value.)
\<close>

definition digitsValue :: "jstring \<Rightarrow> nat" where
  "digitsValue ds = foldl (\<lambda>a c. 10 * a + (c - 48)) 0 ds"

definition Number :: "jstring \<Rightarrow> double" where
  "Number s =
     (let ip = takeWhile isDigit s; fp = drop (length ip + 1) s
      in toDouble (digitsValue (ip @ fp)) (10 ^ length fp))"

record ingredient =
  quantity :: "double option"
  unit :: "jstring option"
  item :: jstring

text \<open>\<^verbatim>\<open>line.replace(/^[\-.\*]\s*/, '')\<close>, where the class also holds the bullet U+2022.\<close>

definition stripBullet :: "jstring \<Rightarrow> jstring" where
  "stripBullet l =
     (case l of [] \<Rightarrow> [] | c # r \<Rightarrow> if c \<in> set [45, 8226, 42] then dropWhile isWhiteSpace r else l)"

definition parseIngredientLine :: "jstring \<Rightarrow> ingredient" where
  "parseIngredientLine l =
     (case ingredientPattern l of
        Some (num, u, it) \<Rightarrow>
          \<lparr>quantity = Some (Number num),
           unit = (case u of None \<Rightarrow> None | Some w \<Rightarrow> if w = [] then None else Some w),
           item = it\<rparr>
      | None \<Rightarrow> \<lparr>quantity = None, unit = None, item = stripBullet l\<rparr>)"

fun collectIngredients :: "ingredient list \<Rightarrow> jstring list \<Rightarrow> ingredient list" where
  "collectIngredients items [] = items"
| "collectIngredients items (l # ls) =
     (if isSeparator l then collectIngredients items ls
      else if isInstructionsHeader l then items
      else if \<not> hasLetter l then collectIngredients items ls
      else let items' = items @ [parseIngredientLine l]
           in if length items' \<ge> 50 then items' else collectIngredients items' ls)"

definition extractIngredients :: "jstring \<Rightarrow> ingredient list" where
  "extractIngredients d = collectIngredients [] (candidatesOf (linesOf d))"

section \<open>Recipe synthesis\<close>

record step =
  step_n :: nat
  step_text :: jstring


record time =
  total :: jstring
  active :: jstring

record recipe =
  title :: jstring
  servings :: nat
  time :: time
  ingredients :: "ingredient list"
  equipment :: "jstring list"
  steps :: "step list"
  notes' :: "jstring list"
  allergens :: "jstring list"

text \<open>\<^verbatim>\<open>steps.map((t, idx) => ({ n: idx + 1, text: t }))\<close>\<close>

definition numberSteps :: "jstring list \<Rightarrow> step list" where
  "numberSteps ts = map (\<lambda>(idx, t). \<lparr>step_n = idx + 1, step_text = t\<rparr>) (zip [0..<length ts] ts)"

text \<open>
  The argument object \<^verbatim>\<open>{ title, description, transcriptText }\<close> is passed as three
  arguments. The time placeholder is the one code unit U+2014.
\<close>

definition synthesizeRecipe :: "(nat \<Rightarrow> jstring) \<Rightarrow> jstring \<Rightarrow> jstring \<Rightarrow> jstring \<Rightarrow> recipe" where
  "synthesizeRecipe U title' description transcriptText =
     \<lparr>title = (if title' = [] then js ''Recipe'' else title'),
      servings = 4,
      time = \<lparr>total = [8212], active = [8212]\<rparr>,
      ingredients = extractIngredients description,
      equipment = [],
      steps = numberSteps
                (extractSteps U (if transcriptText = [] then description else transcriptText)),
      notes' = [],
      allergens = []\<rparr>"

definition fallbackRecipe :: "jstring \<Rightarrow> recipe" where
  "fallbackRecipe message =
     \<lparr>title = js ''Recipe'',
      servings = 2,
      time = \<lparr>total = [8212], active = [8212]\<rparr>,
      ingredients = [],
      equipment = [],
      steps = [\<lparr>step_n = 1, step_text = message\<rparr>],
      notes' = [],
      allergens = []\<rparr>"

section \<open>Renderers\<close>

text \<open>
  \<^verbatim>\<open>`${r.servings}`\<close> and \<^verbatim>\<open>`${s.n}`\<close> print a non-negative integer in decimal.
  \<^verbatim>\<open>`${i.quantity ?? ''}`\<close> prints a double with \<^verbatim>\<open>Number::toString\<close>, a floating-point
  routine outside this model: it is the parameter \<open>N\<close> of the renderers.
\<close>

function showNat :: "nat \<Rightarrow> jstring" where
  "showNat k = (if k < 10 then [48 + k] else showNat (k div 10) @ [48 + k mod 10])"
  by pat_completeness auto
termination
  by (relation "measure id") auto

fun joinWith :: "jstring \<Rightarrow> jstring list \<Rightarrow> jstring" where
  "joinWith sep [] = []"
| "joinWith sep [x] = x"
| "joinWith sep (x # y # ys) = x @ sep @ joinWith sep (y # ys)"

definition ingredientLine :: "(double \<Rightarrow> jstring) \<Rightarrow> ingredient \<Rightarrow> jstring" where
  "ingredientLine N i =
     trim (js ''- '' @ (case quantity i of None \<Rightarrow> [] | Some q \<Rightarrow> N q) @ js '' ''
           @ (case unit i of None \<Rightarrow> [] | Some u \<Rightarrow> u) @ js '' '' @ item i)"

definition stepLine :: "step \<Rightarrow> jstring" where
  "stepLine s = showNat (step_n s) @ js ''. '' @ step_text s"

definition renderMarkdown :: "(double \<Rightarrow> jstring) \<Rightarrow> recipe \<Rightarrow> jstring" where
  "renderMarkdown N r =
     js ''# '' @ title r @ js ''\<newline>\<newline>**Servings:** '' @ showNat (servings r)
     @ js ''\<newline>\<newline>\<newline>## Ingredients\<newline>''
     @ joinWith (js ''\<newline>'') (map (ingredientLine N) (ingredients r))
     @ js ''\<newline>\<newline>## Instructions\<newline>''
     @ joinWith (js ''\<newline>'') (map stepLine (steps r)) @ js ''\<newline>''"

definition renderTxt :: "(double \<Rightarrow> jstring) \<Rightarrow> recipe \<Rightarrow> jstring" where
  "renderTxt N r =
     title r @ js ''\<newline>Servings: '' @ showNat (servings r)
     @ js ''\<newline>\<newline>Ingredients\<newline>''
     @ joinWith (js ''\<newline>'') (map (ingredientLine N) (ingredients r))
     @ js ''\<newline>\<newline>Instructions\<newline>''
     @ joinWith (js ''\<newline>'') (map stepLine (steps r)) @ js ''\<newline>''"

section \<open>Pattern matching on page text\<close>

text \<open>
  Building blocks for the remaining regular expressions. \<open>dropPrefix p s\<close> matches the
  literal \<open>p\<close> at the start of \<open>s\<close> and gives the rest; \<open>dropPrefixCI\<close> does so
  without case. \<open>firstMatch m s\<close> tries the anchored matcher \<open>m\<close> at every position
  from the left, as an unanchored expression does. \<open>lazyAny k\<close> is \<^verbatim>\<open>[\s\S]*?\<close> followed
  by the continuation \<open>k\<close>: it takes as few code units as possible, and gives what it
  took together with the result of \<open>k\<close>.
\<close>

fun dropPrefix :: "jstring \<Rightarrow> jstring \<Rightarrow> jstring option" where
  "dropPrefix [] s = Some s"
| "dropPrefix (p # ps) [] = None"
| "dropPrefix (p # ps) (c # cs) = (if p = c then dropPrefix ps cs else None)"

fun dropPrefixCI :: "jstring \<Rightarrow> jstring \<Rightarrow> jstring option" where
  "dropPrefixCI [] s = Some s"
| "dropPrefixCI (p # ps) [] = None"
| "dropPrefixCI (p # ps) (c # cs) =
     (if asciiUpper p = asciiUpper c then dropPrefixCI ps cs else None)"

fun firstMatch :: "(jstring \<Rightarrow> 'a option) \<Rightarrow> jstring \<Rightarrow> 'a option" where
  "firstMatch m [] = m []"
| "firstMatch m (c # cs) =
     (case m (c # cs) of Some r \<Rightarrow> Some r | None \<Rightarrow> firstMatch m cs)"

fun lazyAny :: "(jstring \<Rightarrow> 'a option) \<Rightarrow> jstring \<Rightarrow> jstring \<Rightarrow> (jstring \<times> 'a) option" where
  "lazyAny k acc [] = (case k [] of Some r \<Rightarrow> Some (rev acc, r) | None \<Rightarrow> None)"
| "lazyAny k acc (c # cs) =
     (case k (c # cs) of Some r \<Rightarrow> Some (rev acc, r) | None \<Rightarrow> lazyAny k (c # acc) cs)"

text \<open>
  \<^verbatim>\<open>s.replace(/needle/g, repl)\<close> for a literal, non-empty needle: occurrences are
  replaced from the left and do not overlap.
\<close>

function replaceAll :: "jstring \<Rightarrow> jstring \<Rightarrow> jstring \<Rightarrow> jstring" where
  "replaceAll needle repl [] = []"
| "replaceAll needle repl (c # cs) =
     (if needle \<noteq> [] \<and> dropPrefix needle (c # cs) \<noteq> None
      then repl @ replaceAll needle repl (drop (length needle - 1) cs)
      else c # replaceAll needle repl cs)"
  by pat_completeness auto
termination
  by (relation "measure (\<lambda>(a, b, s). length s)") (auto simp: less_Suc_eq_le)

text \<open>\<^verbatim>\<open>/ytInitialPlayerResponse\s*=\s*(\{[\s\S]*?\});/\<close>, group 1.\<close>

definition playerResponsePattern :: "jstring \<Rightarrow> jstring option" where
  "playerResponsePattern s =
     (case dropPrefix (js ''ytInitialPlayerResponse'') s of
        None \<Rightarrow> None
      | Some r1 \<Rightarrow>
          (case dropPrefix (js ''='') (dropWhile isWhiteSpace r1) of
             None \<Rightarrow> None
           | Some r2 \<Rightarrow>
               (case dropPrefix (js ''{'') (dropWhile isWhiteSpace r2) of
                  None \<Rightarrow> None
                | Some r3 \<Rightarrow>
                    (case lazyAny (dropPrefix (js ''};'')) [] r3 of
                       None \<Rightarrow> None
                     | Some (inner, _) \<Rightarrow> Some (js ''{'' @ inner @ js ''}'')))))"

section \<open>Errors, JSON and the network\<close>

text \<open>
  What the source can throw: a rejected \<^verbatim>\<open>fetch\<close>, a body that cannot be read
  (\<^verbatim>\<open>resp.text()\<close> rejects), a \<^verbatim>\<open>SyntaxError\<close> of \<^verbatim>\<open>JSON.parse\<close> and a \<^verbatim>\<open>TypeError\<close>.
\<close>

datatype error = NetworkError | BodyError | SyntaxError | TypeError

text \<open>
  \<^verbatim>\<open>JSON.parse\<close> is a built-in. The source applies it to two kinds of text.

  The player response (a text that starts with a brace) is read through three paths
  only: \<^verbatim>\<open>videoDetails.title\<close>, \<^verbatim>\<open>videoDetails.shortDescription\<close> and
  \<^verbatim>\<open>captions.playerCaptionsTracklistRenderer.captionTracks\<close>. The parameter \<open>J\<close> of the
  functions below is \<^verbatim>\<open>JSON.parse\<close> on such a text followed by these three reads, typed
  as the source declares them (\<^verbatim>\<open>title: string\<close>, \<^verbatim>\<open>description: string\<close>) and as the
  data model gives a caption track (\<^verbatim>\<open>language_code\<close>, \<^verbatim>\<open>base_url\<close>); a path that is
  absent reads as \<open>None\<close>, an absent field of a track as the empty string. \<open>Inl\<close> is
  the exception of \<^verbatim>\<open>JSON.parse\<close>.
\<close>

record captionTrack =
  languageCode :: jstring
  baseUrl :: jstring

record playerResponse =
  videoDetails_title :: "jstring option"
  videoDetails_shortDescription :: "jstring option"
  captionTracks :: "captionTrack list option"

definition safeJson :: "(jstring \<Rightarrow> error + playerResponse) \<Rightarrow> jstring \<Rightarrow> playerResponse option" where
  "safeJson J s = (case J s of Inl _ \<Rightarrow> None | Inr v \<Rightarrow> Some v)"

text \<open>
  The other text is \<^verbatim>\<open>'"' + ... + '"'\<close>. A JSON text that starts with a quotation mark
  is valid only as one string literal, followed by JSON white space at most; its value
  is the decoded string. \<open>jsonStringBody\<close> reads the literal after its opening
  quotation mark and gives the decoded string and what follows the closing mark. A code
  unit below U+0020 inside the literal is a syntax error, and so is an unknown escape.
\<close>

definition hexValue :: "nat \<Rightarrow> nat option" where
  "hexValue c =
     (if isDigit c then Some (c - 48)
      else if 97 \<le> c \<and> c \<le> 102 then Some (c - 87)
      else if 65 \<le> c \<and> c \<le> 70 then Some (c - 55)
      else None)"

definition simpleEscape :: "nat \<Rightarrow> nat option" where
  "simpleEscape e =
     (if e = 34 then Some 34 else if e = 92 then Some 92 else if e = 47 then Some 47
      else if e = 98 then Some 8 else if e = 102 then Some 12 else if e = 110 then Some 10
      else if e = 114 then Some 13 else if e = 116 then Some 9 else None)"

definition unicodeEscape :: "jstring \<Rightarrow> nat option" where
  "unicodeEscape hs =
     (case map hexValue hs of
        [Some a, Some b, Some c, Some d] \<Rightarrow> Some (4096 * a + 256 * b + 16 * c + d)
      | _ \<Rightarrow> None)"

function jsonStringBody :: "jstring \<Rightarrow> error + (jstring \<times> jstring)" where
  "jsonStringBody [] = Inl SyntaxError"
| "jsonStringBody (c # cs) =
     (if c = 34 then Inr ([], cs)
      else if c = 92 then
        (case cs of
           [] \<Rightarrow> Inl SyntaxError
         | e # r \<Rightarrow>
             if e = 117 then
               (case unicodeEscape (take 4 r) of
                  None \<Rightarrow> Inl SyntaxError
                | Some u \<Rightarrow>
                    (case jsonStringBody (drop 4 r) of
                       Inl x \<Rightarrow> Inl x
                     | Inr (v, rest) \<Rightarrow> Inr (u # v, rest)))
             else
               (case simpleEscape e of
                  None \<Rightarrow> Inl SyntaxError
                | Some u \<Rightarrow>
                    (case jsonStringBody r of
                       Inl x \<Rightarrow> Inl x
                     | Inr (v, rest) \<Rightarrow> Inr (u # v, rest))))
      else if c < 32 then Inl SyntaxError
      else (case jsonStringBody cs of
              Inl x \<Rightarrow> Inl x
            | Inr (v, rest) \<Rightarrow> Inr (c # v, rest)))"
  by pat_completeness auto
termination
  by (relation "measure length") (auto simp: less_Suc_eq_le)

definition isJsonWhiteSpace :: "nat \<Rightarrow> bool" where
  "isJsonWhiteSpace c \<longleftrightarrow> c \<in> set [32, 9, 10, 13]"

definition JSON_parse_string :: "jstring \<Rightarrow> error + jstring" where
  "JSON_parse_string t =
     (case t of
        [] \<Rightarrow> Inl SyntaxError
      | q # r \<Rightarrow>
          if q \<noteq> 34 then Inl SyntaxError
          else (case jsonStringBody r of
                  Inl x \<Rightarrow> Inl x
                | Inr (v, rest) \<Rightarrow> if list_all isJsonWhiteSpace rest then Inr v else Inl SyntaxError))"

text \<open>
  The network. A request is a URL and the \<^verbatim>\<open>accept-language\<close> header, if one is sent.
  A response has the \<^verbatim>\<open>ok\<close> flag and a body, \<open>None\<close> when reading it fails. What the
  network answers may depend on every request made before: a network is a function of
  the request log and the request, and \<open>None\<close> is a rejected \<^verbatim>\<open>fetch\<close>. The log is the
  state that the fetching functions pass along.
\<close>

datatype request = Request (requestUrl: jstring) (acceptLanguage: "jstring option")

record response =
  ok :: bool
  body :: "jstring option"

type_synonym network = "request list \<Rightarrow> request \<Rightarrow> response option"

definition fetch :: "network \<Rightarrow> request list \<Rightarrow> request \<Rightarrow> response option \<times> request list" where
  "fetch net hist rq = (net hist rq, hist @ [rq])"

section \<open>Source resolver\<close>

text \<open>\<^verbatim>\<open>/<meta\s+property="og:title"\s+content="([^"]+)"/i\<close>, group 1.\<close>

definition skipWhiteSpace1 :: "jstring \<Rightarrow> jstring option" where
  "skipWhiteSpace1 s =
     (if takeWhile isWhiteSpace s = [] then None else Some (dropWhile isWhiteSpace s))"

definition ogTitlePattern :: "jstring \<Rightarrow> jstring option" where
  \<open>ogTitlePattern s =
     (case dropPrefixCI (js ''<meta'') s of
        None \<Rightarrow> None
      | Some r1 \<Rightarrow>
          (case skipWhiteSpace1 r1 of
             None \<Rightarrow> None
           | Some r2 \<Rightarrow>
               (case dropPrefixCI (js ''property="og:title"'') r2 of
                  None \<Rightarrow> None
                | Some r3 \<Rightarrow>
                    (case skipWhiteSpace1 r3 of
                       None \<Rightarrow> None
                     | Some r4 \<Rightarrow>
                         (case dropPrefixCI (js ''content="'') r4 of
                            None \<Rightarrow> None
                          | Some r5 \<Rightarrow>
                              if takeWhile (\<lambda>c. c \<noteq> 34) r5 \<noteq> []
                                 \<and> dropWhile (\<lambda>c. c \<noteq> 34) r5 \<noteq> []
                              then Some (takeWhile (\<lambda>c. c \<noteq> 34) r5) else None)))))\<close>

text \<open>\<^verbatim>\<open>/"shortDescription":"([\s\S]*?)"\s*,\s*"isCrawlable"/\<close>, group 1.\<close>

definition isCrawlableTail :: "jstring \<Rightarrow> unit option" where
  \<open>isCrawlableTail s =
     (case dropPrefix (js ''"'') s of
        None \<Rightarrow> None
      | Some r1 \<Rightarrow>
          (case dropPrefix (js '','') (dropWhile isWhiteSpace r1) of
             None \<Rightarrow> None
           | Some r2 \<Rightarrow>
               (case dropPrefix (js ''"isCrawlable"'') (dropWhile isWhiteSpace r2) of
                  None \<Rightarrow> None
                | Some _ \<Rightarrow> Some ())))\<close>

definition shortDescriptionPattern :: "jstring \<Rightarrow> jstring option" where
  \<open>shortDescriptionPattern s =
     (case dropPrefix (js ''"shortDescription":"'') s of
        None \<Rightarrow> None
      | Some r \<Rightarrow> (case lazyAny isCrawlableTail [] r of None \<Rightarrow> None | Some (g, _) \<Rightarrow> Some g))\<close>

text \<open>
  \<^verbatim>\<open>fetchYouTubePage\<close> after the page text has arrived (lines 125 to 137): the title
  and the description of the page \<open>html\<close>, or the exception that escapes. The only
  statement that can throw here is the bare \<^verbatim>\<open>JSON.parse\<close> of the description
  fallback; the player response goes through \<^verbatim>\<open>safeJson\<close>. The two \<^verbatim>\<open>replace\<close> calls
  turn backslash-n into a line feed and backslash-quote into a quotation mark before
  the text is parsed.
\<close>

definition resolvePage :: "(jstring \<Rightarrow> error + playerResponse) \<Rightarrow> jstring \<Rightarrow> error + (jstring \<times> jstring)" where
  \<open>resolvePage J html =
     (let pr = (case firstMatch playerResponsePattern html of
                  None \<Rightarrow> None
                | Some g \<Rightarrow> if g = [] then None else safeJson J g);
          title0 = (case pr of
                      None \<Rightarrow> []
                    | Some v \<Rightarrow> (case videoDetails_title v of None \<Rightarrow> [] | Some t \<Rightarrow> t));
          description0 = (case pr of
                            None \<Rightarrow> []
                          | Some v \<Rightarrow>
                              (case videoDetails_shortDescription v of None \<Rightarrow> [] | Some d \<Rightarrow> d));
          title1 = (if title0 = []
                    then (case firstMatch ogTitlePattern html of
                            None \<Rightarrow> js ''Recipe''
                          | Some t \<Rightarrow> t)
                    else title0)
      in if description0 = []
         then (case firstMatch shortDescriptionPattern html of
                 None \<Rightarrow> Inr (title1, description0)
               | Some g \<Rightarrow>
                   if g = [] then Inr (title1, description0)
                   else (case JSON_parse_string
                                (js ''"'' @ replaceAll [92, 34] (js ''"'')
                                              (replaceAll [92, 110] (js ''\<newline>'') g) @ js ''"'') of
                           Inl e \<Rightarrow> Inl e
                         | Inr d \<Rightarrow> Inr (title1, d)))
         else Inr (title1, description0))\<close>

text \<open>\<^verbatim>\<open>fetchYouTubePage\<close>: the request, the body, then the page is resolved.\<close>

definition fetchYouTubePage ::
    "(jstring \<Rightarrow> error + playerResponse) \<Rightarrow> network \<Rightarrow> request list \<Rightarrow> jstring
      \<Rightarrow> (error + (jstring \<times> jstring)) \<times> request list" where
  "fetchYouTubePage J net hist url =
     (case fetch net hist (Request url (Some (js ''en''))) of
        (None, hist1) \<Rightarrow> (Inl NetworkError, hist1)
      | (Some resp, hist1) \<Rightarrow>
          (case body resp of
             None \<Rightarrow> (Inl BodyError, hist1)
           | Some html \<Rightarrow> (resolvePage J html, hist1)))"

section \<open>Transcript retriever\<close>

text \<open>\<^verbatim>\<open>/[?&]v=([a-zA-Z0-9_-]{6,})/\<close>, group 1.\<close>

definition isIdChar :: "nat \<Rightarrow> bool" where
  "isIdChar c \<longleftrightarrow> isLetter c \<or> isDigit c \<or> c = 95 \<or> c = 45"

definition videoIdPattern :: "jstring \<Rightarrow> jstring option" where
  "videoIdPattern s =
     (case s of
        [] \<Rightarrow> None
      | c # r \<Rightarrow>
          if c = 63 \<or> c = 38
          then (case dropPrefix (js ''v='') r of
                  None \<Rightarrow> None
                | Some r' \<Rightarrow>
                    if length (takeWhile isIdChar r') \<ge> 6
                    then Some (takeWhile isIdChar r') else None)
          else None)"

text \<open>
  \<^verbatim>\<open>vttToPlainText\<close>. \<open>stripTags\<close> is \<^verbatim>\<open>line.replace(/<[^>]+>/g, '')\<close>: a \<^verbatim>\<open><\<close>, at
  least one code unit other than \<^verbatim>\<open>>\<close>, and the next \<^verbatim>\<open>>\<close>.
\<close>

function stripTags :: "jstring \<Rightarrow> jstring" where
  "stripTags [] = []"
| "stripTags (c # cs) =
     (if c = 60 \<and> takeWhile (\<lambda>x. x \<noteq> 62) cs \<noteq> [] \<and> dropWhile (\<lambda>x. x \<noteq> 62) cs \<noteq> []
      then stripTags (drop (Suc (length (takeWhile (\<lambda>x. x \<noteq> 62) cs))) cs)
      else c # stripTags cs)"
  by pat_completeness auto
termination
  by (relation "measure length") (auto simp: less_Suc_eq_le)

definition containsLiteral :: "jstring \<Rightarrow> jstring \<Rightarrow> bool" where
  "containsLiteral p s \<longleftrightarrow> firstMatch (dropPrefix p) s \<noteq> None"

definition isCueNoise :: "jstring \<Rightarrow> bool" where
  "isCueNoise l \<longleftrightarrow>
     l = [] \<or> startsWithCI (js ''WEBVTT'') l \<or> containsLiteral (js ''-->'') l
     \<or> (l \<noteq> [] \<and> list_all isDigit l)"

definition vttToPlainText :: "jstring \<Rightarrow> jstring" where
  "vttToPlainText vtt =
     joinWith (js '' '') (map stripTags (filter (\<lambda>l. \<not> isCueNoise l) (splitLines [] vtt)))"

definition decodeHtml :: "jstring \<Rightarrow> jstring" where
  \<open>decodeHtml s =
     replaceAll (js ''&#39;'') [39]
       (replaceAll (js ''&quot;'') (js ''"'')
          (replaceAll (js ''&gt;'') (js ''>'')
             (replaceAll (js ''&lt;'') (js ''<'')
                (replaceAll (js ''&amp;'') (js ''&'') s))))\<close>

text \<open>
  \<^verbatim>\<open>xml.matchAll(/<text[^>]*>([\s\S]*?)<\/text>/g)\<close>. \<open>textPattern\<close> is the expression
  anchored at the start of \<open>s\<close>: group 1 and the number of code units matched.
  \<open>textItems\<close> collects group 1 of every match from the left, decoded; after a match
  the search goes on behind it.
\<close>

definition textPattern :: "jstring \<Rightarrow> (jstring \<times> nat) option" where
  "textPattern s =
     (case dropPrefix (js ''<text'') s of
        None \<Rightarrow> None
      | Some r1 \<Rightarrow>
          (case dropPrefix (js ''>'') (dropWhile (\<lambda>x. x \<noteq> 62) r1) of
             None \<Rightarrow> None
           | Some r2 \<Rightarrow>
               (case lazyAny (dropPrefix (js ''</text>'')) [] r2 of
                  None \<Rightarrow> None
                | Some (g, rest) \<Rightarrow> Some (g, length s - length rest))))"

function textItems :: "jstring \<Rightarrow> jstring list" where
  "textItems [] = []"
| "textItems (c # cs) =
     (case textPattern (c # cs) of
        None \<Rightarrow> textItems cs
      | Some (g, k) \<Rightarrow> decodeHtml g # textItems (drop (k - 1) cs))"
  by pat_completeness auto
termination
  by (relation "measure length") (auto simp: less_Suc_eq_le)

text \<open>\<^verbatim>\<open>items.join(' ').replace(/\s+/g, ' ').trim()\<close>\<close>

definition joinItems :: "jstring list \<Rightarrow> jstring" where
  "joinItems items = trim (collapseWhiteSpace (joinWith (js '' '') items))"

text \<open>
  An attempt is a block inside \<^verbatim>\<open>try\<close>. Its outcome is \<open>Inl e\<close> when \<open>e\<close> is thrown
  inside it, \<open>Inr (Some t)\<close> when it returns the transcript \<open>t\<close> from the function, and
  \<open>Inr None\<close> when it ends without returning (or with \<^verbatim>\<open>continue\<close>).
\<close>

type_synonym attempt = "(error + jstring option) \<times> request list"

text \<open>Lines 160 to 165: the caption track again, without the format hint.\<close>

definition xmlAttempt :: "network \<Rightarrow> request list \<Rightarrow> jstring \<Rightarrow> attempt" where
  "xmlAttempt net hist url =
     (case fetch net hist (Request url None) of
        (None, hist1) \<Rightarrow> (Inl NetworkError, hist1)
      | (Some xmlResp, hist1) \<Rightarrow>
          if ok xmlResp
          then (case body xmlResp of
                  None \<Rightarrow> (Inl BodyError, hist1)
                | Some xml \<Rightarrow>
                    if length (textItems xml) > 0
                    then (Inr (Some (joinItems (textItems xml))), hist1)
                    else (Inr None, hist1))
          else (Inr None, hist1))"

text \<open>Lines 153 to 165: the caption track as WEBVTT, then as XML.\<close>

definition trackAttempt :: "network \<Rightarrow> request list \<Rightarrow> jstring \<Rightarrow> attempt" where
  "trackAttempt net hist url =
     (case fetch net hist
             (Request (url @ (if 63 \<in> set url then js ''&'' else js ''?'') @ js ''fmt=vtt'') None) of
        (None, hist1) \<Rightarrow> (Inl NetworkError, hist1)
      | (Some vttResp, hist1) \<Rightarrow>
          if ok vttResp
          then (case body vttResp of
                  None \<Rightarrow> (Inl BodyError, hist1)
                | Some vtt \<Rightarrow>
                    if trim (vttToPlainText vtt) \<noteq> []
                    then (Inr (Some (vttToPlainText vtt)), hist1)
                    else xmlAttempt net hist1 url)
          else xmlAttempt net hist1 url)"

text \<open>
  \<^verbatim>\<open>tracks.find(en) || tracks.find(es) || tracks[0]\<close> on a list that is not empty.
  \<^verbatim>\<open>/^(en|en-)/i\<close> holds of the strings that start with \<^verbatim>\<open>en\<close>, in any case.
\<close>

definition preferredTrack :: "captionTrack list \<Rightarrow> captionTrack option" where
  "preferredTrack ts =
     (case find (\<lambda>t. startsWithCI (js ''en'') (languageCode t)) ts of
        Some t \<Rightarrow> Some t
      | None \<Rightarrow>
          (case find (\<lambda>t. startsWithCI (js ''es'') (languageCode t)) ts of
             Some t \<Rightarrow> Some t
           | None \<Rightarrow> (case ts of [] \<Rightarrow> None | t # _ \<Rightarrow> Some t)))"

text \<open>Lines 146 to 167: the body of the first \<^verbatim>\<open>try\<close>.\<close>

definition primaryAttempt ::
    "(jstring \<Rightarrow> error + playerResponse) \<Rightarrow> network \<Rightarrow> request list \<Rightarrow> jstring \<Rightarrow> attempt" where
  "primaryAttempt J net hist videoId =
     (case fetch net hist
             (Request (js ''https://www.youtube.com/watch?v='' @ videoId) (Some (js ''en''))) of
        (None, hist1) \<Rightarrow> (Inl NetworkError, hist1)
      | (Some resp, hist1) \<Rightarrow>
          (case body resp of
             None \<Rightarrow> (Inl BodyError, hist1)
           | Some watchHtml \<Rightarrow>
               (case (case firstMatch playerResponsePattern watchHtml of
                        None \<Rightarrow> None
                      | Some g \<Rightarrow> if g = [] then None else safeJson J g) of
                  None \<Rightarrow> (Inr None, hist1)
                | Some pr \<Rightarrow>
                    (case captionTracks pr of
                       None \<Rightarrow> (Inr None, hist1)
                     | Some ts \<Rightarrow>
                         if length ts > 0
                         then (case preferredTrack ts of
                                 None \<Rightarrow> (Inr None, hist1)
                               | Some preferred \<Rightarrow>
                                   if baseUrl preferred \<noteq> []
                                   then trackAttempt net hist1 (baseUrl preferred)
                                   else (Inr None, hist1))
                         else (Inr None, hist1)))))"

text \<open>
  \<^verbatim>\<open>encodeURIComponent\<close> leaves letters, digits and \<^verbatim>\<open>-_.!~*'()\<close> as they are, which
  covers the five language codes; any other ASCII code unit becomes \<^verbatim>\<open>%XX\<close>. Beyond
  ASCII the built-in writes the UTF-8 bytes of the code point, which no language code
  of the source needs: the model leaves such a code unit as it is.
\<close>

definition hexDigit :: "nat \<Rightarrow> nat" where
  "hexDigit d = (if d < 10 then 48 + d else 55 + d)"

definition encodeURIComponent :: "jstring \<Rightarrow> jstring" where
  "encodeURIComponent s =
     concat (map (\<lambda>c. if isLetter c \<or> isDigit c \<or> c \<in> set [45, 95, 46, 33, 126, 42, 39, 40, 41]
                          \<or> c \<ge> 128
                       then [c] else [37, hexDigit (c div 16), hexDigit (c mod 16)]) s)"

text \<open>Lines 174 to 180: the body of the \<^verbatim>\<open>try\<close> inside the loop, for one language.\<close>

definition timedtextUrl :: "jstring \<Rightarrow> jstring \<Rightarrow> jstring" where
  "timedtextUrl lang videoId =
     js ''https://www.youtube.com/api/timedtext?lang='' @ encodeURIComponent lang
     @ js ''&v='' @ videoId"

definition legacyAttempt :: "network \<Rightarrow> request list \<Rightarrow> jstring \<Rightarrow> jstring \<Rightarrow> attempt" where
  "legacyAttempt net hist videoId lang =
     (case fetch net hist (Request (timedtextUrl lang videoId) None) of
        (None, hist1) \<Rightarrow> (Inl NetworkError, hist1)
      | (Some r, hist1) \<Rightarrow>
          if \<not> ok r then (Inr None, hist1)
          else (case body r of
                  None \<Rightarrow> (Inl BodyError, hist1)
                | Some xml \<Rightarrow>
                    if \<not> containsLiteral (js ''<text'') xml then (Inr None, hist1)
                    else if length (textItems xml) > 0
                    then (Inr (Some (joinItems (textItems xml))), hist1)
                    else (Inr None, hist1)))"

definition langs :: "jstring list" where
  "langs = map js [''en'', ''en-US'', ''en-GB'', ''es'', ''es-419'']"

text \<open>
  The loop over the languages: \<^verbatim>\<open>catch {}\<close> and \<^verbatim>\<open>continue\<close> both go on with the next
  language, a \<^verbatim>\<open>return\<close> leaves the function. After the loop comes \<^verbatim>\<open>return ''\<close>.
\<close>

fun legacyLoop :: "network \<Rightarrow> request list \<Rightarrow> jstring \<Rightarrow> jstring list \<Rightarrow> (error + jstring) \<times> request list" where
  "legacyLoop net hist videoId [] = (Inr [], hist)"
| "legacyLoop net hist videoId (lang # ls) =
     (case legacyAttempt net hist videoId lang of
        (Inr (Some t), hist1) \<Rightarrow> (Inr t, hist1)
      | (Inr None, hist1) \<Rightarrow> legacyLoop net hist1 videoId ls
      | (Inl _, hist1) \<Rightarrow> legacyLoop net hist1 videoId ls)"

text \<open>
  \<^verbatim>\<open>tryFetchYouTubeTranscript\<close>. The result is a sum so that an exception leaving the
  function would be a value \<open>Inl\<close>; the first \<^verbatim>\<open>try\<close> has an empty \<^verbatim>\<open>catch\<close>.
\<close>

definition tryFetchYouTubeTranscript ::
    "(jstring \<Rightarrow> error + playerResponse) \<Rightarrow> network \<Rightarrow> request list \<Rightarrow> jstring
      \<Rightarrow> (error + jstring) \<times> request list" where
  "tryFetchYouTubeTranscript J net hist url =
     (case firstMatch videoIdPattern url of
        None \<Rightarrow> (Inr [], hist)
      | Some videoId \<Rightarrow>
          if videoId = [] then (Inr [], hist)
          else (case primaryAttempt J net hist videoId of
                  (Inr (Some t), hist1) \<Rightarrow> (Inr t, hist1)
                | (Inr None, hist1) \<Rightarrow> legacyLoop net hist1 videoId langs
                | (Inl _, hist1) \<Rightarrow> legacyLoop net hist1 videoId langs))"

section \<open>Job orchestrator\<close>

datatype sourceType = File | Url

record UploadRecord =
  source_type :: sourceType
  source_url :: "jstring option"
  filename :: jstring
  size_bytes :: int

record JobResult =
  recipe_json :: recipe
  markdown :: jstring
  txt' :: jstring

text \<open>The two in-memory maps of the module.\<close>

record state =
  uploads :: "jstring \<rightharpoonup> UploadRecord"
  jobResults :: "jstring \<rightharpoonup> JobResult"

text \<open>
  \<^verbatim>\<open>StartJobReq = z.object({ upload_id: z.string().min(1) })\<close>. The request body is
  given by its \<^verbatim>\<open>upload_id\<close> field, \<open>None\<close> when the field is missing or not a string.
\<close>

definition StartJobReq :: "jstring option \<Rightarrow> jstring option" where
  "StartJobReq b = (case b of None \<Rightarrow> None | Some u \<Rightarrow> if length u \<ge> 1 then Some u else None)"

datatype startJobResponse = BadRequest | Accepted (job_id: jstring) (sse_url: jstring)

text \<open>
  The body of the asynchronous function of \<^verbatim>\<open>/start-job\<close> (lines 62 to 71): the result
  it stores, and the request log after it. \<open>U\<close>, \<open>N\<close> and \<open>J\<close> are the built-ins
  described above.
\<close>

definition failedResult :: JobResult where
  "failedResult =
     \<lparr>recipe_json = fallbackRecipe (js ''Failed to extract content''),
      markdown = js ''# Error'', txt' = js ''Error''\<rparr>"

definition runPipeline ::
    "(nat \<Rightarrow> jstring) \<Rightarrow> (double \<Rightarrow> jstring) \<Rightarrow> (jstring \<Rightarrow> error + playerResponse) \<Rightarrow> network
      \<Rightarrow> request list \<Rightarrow> jstring \<Rightarrow> JobResult \<times> request list" where
  "runPipeline U N J net hist url =
     (case fetchYouTubePage J net hist url of
        (Inl _, hist1) \<Rightarrow> (failedResult, hist1)
      | (Inr (title', description), hist1) \<Rightarrow>
          (case tryFetchYouTubeTranscript J net hist1 url of
             (Inl _, hist2) \<Rightarrow> (failedResult, hist2)
           | (Inr transcriptText, hist2) \<Rightarrow>
               (let r = synthesizeRecipe U title' description transcriptText
                in (\<lparr>recipe_json = r, markdown = renderMarkdown N r, txt' = renderTxt N r\<rparr>,
                    hist2))))"

text \<open>
  \<^verbatim>\<open>/start-job\<close>, the synchronous part: the response, the state when the handler
  returns, and the asynchronous work it has launched, if any, as the pair of the job id
  and the source URL. \<open>uuid\<close> is the value of \<^verbatim>\<open>randomUUID()\<close>.
\<close>

definition pendingResult :: JobResult where
  "pendingResult =
     \<lparr>recipe_json = fallbackRecipe (js ''File processing not implemented''),
      markdown = js ''# Pending'', txt' = js ''Pending''\<rparr>"

definition startJob ::
    "state \<Rightarrow> jstring option \<Rightarrow> jstring \<Rightarrow> startJobResponse \<times> state \<times> (jstring \<times> jstring) option" where
  "startJob st b uuid =
     (case StartJobReq b of
        None \<Rightarrow> (BadRequest, st, None)
      | Some upload_id \<Rightarrow>
          (let jid = js ''job_'' @ uuid;
               resp = Accepted jid (js ''/api/jobs/'' @ jid @ js ''/events'')
           in case uploads st upload_id of
                None \<Rightarrow> (resp, st\<lparr>jobResults := (jobResults st)(jid \<mapsto> pendingResult)\<rparr>, None)
              | Some upload \<Rightarrow>
                  (case source_url upload of
                     None \<Rightarrow> (resp, st\<lparr>jobResults := (jobResults st)(jid \<mapsto> pendingResult)\<rparr>, None)
                   | Some u \<Rightarrow>
                       if source_type upload = Url \<and> u \<noteq> []
                       then (resp, st, Some (jid, u))
                       else (resp, st\<lparr>jobResults := (jobResults st)(jid \<mapsto> pendingResult)\<rparr>,
                             None))))"

text \<open>The launched work, when it ends: its result is stored under the job id.\<close>

definition finishJob ::
    "(nat \<Rightarrow> jstring) \<Rightarrow> (double \<Rightarrow> jstring) \<Rightarrow> (jstring \<Rightarrow> error + playerResponse) \<Rightarrow> network
      \<Rightarrow> request list \<Rightarrow> state \<Rightarrow> jstring \<times> jstring \<Rightarrow> state \<times> request list" where
  "finishJob U N J net hist st work =
     (case work of
        (jid, url) \<Rightarrow>
          (case runPipeline U N J net hist url of
             (res, hist1) \<Rightarrow> (st\<lparr>jobResults := (jobResults st)(jid \<mapsto> res)\<rparr>, hist1)))"

text \<open>
  \<^verbatim>\<open>/get-recipe\<close>. The argument is the query parameter \<^verbatim>\<open>job_id\<close>, \<open>None\<close> when it is
  absent. A stored result is an object, so \<^verbatim>\<open>!result\<close> holds of a missing one only.
\<close>

datatype getRecipeResponse = InvalidRequest | NotReady | Found JobResult

definition getRecipe :: "state \<Rightarrow> jstring option \<Rightarrow> getRecipeResponse" where
  "getRecipe st q =
     (case q of
        None \<Rightarrow> InvalidRequest
      | Some jid \<Rightarrow>
          if jid = [] then InvalidRequest
          else (case jobResults st jid of None \<Rightarrow> NotReady | Some res \<Rightarrow> Found res))"

text \<open>Concrete built-ins and networks for the instances below.\<close>

definition wholeNumber :: "double \<Rightarrow> jstring" where
  "wholeNumber q = (case q of Finite r \<Rightarrow> showNat (nat \<lfloor>r\<rfloor>) | Infinity \<Rightarrow> js ''Infinity'')"

definition noJson :: "jstring \<Rightarrow> error + playerResponse" where
  "noJson s = Inl SyntaxError"

definition offline :: network where
  "offline hist rq = None"

definition always :: "jstring \<Rightarrow> network" where
  "always b hist rq = Some \<lparr>ok = True, body = Some b\<rparr>"

text \<open>
  A page whose only trace of a description is the raw field
  \<^verbatim>\<open>"shortDescription":"Mix\nBake","isCrawlable":true\<close>, the line break written as the
  two code units backslash and n, as a page embeds it.
\<close>

definition escapedDescription :: jstring where
  "escapedDescription = js ''Mix'' @ [92, 110] @ js ''Bake''"

definition escapedPage :: jstring where
  \<open>escapedPage = js ''"shortDescription":"'' @ escapedDescription @ js ''","isCrawlable":true''\<close>

definition emptyState :: state where
  "emptyState = \<lparr>uploads = Map.empty, jobResults = Map.empty\<rparr>"

section \<open>Properties of step extraction\<close>

text \<open>The transcript of the example, sentence by sentence.\<close>

lemma preheat_sentences:
  "sentencesOf (js ''Preheat the oven. Add flour and stir gently. Serve warm.'') =
     [js ''Preheat the oven.'', js ''Add flour and stir gently.'', js ''Serve warm.'']"
  by (simp add: sentencesOf_def js_def isWhiteSpace_def isSentenceEnd_def trim_def)

text \<open>
  Every one of the three sentences matches the cue expression: the first through
  \<^verbatim>\<open>heat\<close> inside \<^verbatim>\<open>Preheat\<close>, since the expression has no word boundary.
\<close>

lemma preheat_heat: "containsCI (js ''heat'') (js ''Preheat the oven.'')"
  by (simp add: js_def asciiUpper_def isLower_def)

lemma preheat_cues:
  "cues (js ''Preheat the oven.'')"
  "cues (js ''Add flour and stir gently.'')"
  "cues (js ''Serve warm.'')"
  by (simp_all add: js_def cues_def cueWords_def asciiUpper_def isLower_def)

lemma preheat_pickSteps:
  "pickSteps U [] [js ''Preheat the oven.'', js ''Add flour and stir gently.'', js ''Serve warm.'']
     = [js ''Preheat the oven.'', js ''Add flour and stir gently.'', js ''Serve warm.'']"
  by (simp add: preheat_cues Let_def)
     (simp add: js_def capitalize_def stripStepNumber_def isDigit_def toUpperCase1_def
        asciiUpper_def isLower_def)

lemma preheat_extractSteps:
  "extractSteps U (js ''Preheat the oven. Add flour and stir gently. Serve warm.'') =
     [js ''Preheat the oven.'', js ''Add flour and stir gently.'', js ''Serve warm.'']"
  unfolding extractSteps_def preheat_sentences preheat_pickSteps Let_def
  by (simp add: js_def upperFirstLower_def isLower_def)

lemma numberSteps_3:
  "numberSteps [a, b, c] =
     [\<lparr>step_n = 1, step_text = a\<rparr>, \<lparr>step_n = 2, step_text = b\<rparr>, \<lparr>step_n = 3, step_text = c\<rparr>]"
  by (simp add: numberSteps_def upt_rec)

text \<open>
  C1, as stated, fails: for the transcript
  \<^verbatim>\<open>"Preheat the oven. Add flour and stir gently. Serve warm."\<close> with empty title and
  description the step texts are not the two sentences
  \<^verbatim>\<open>"Add flour and stir gently."\<close> and \<^verbatim>\<open>"Serve warm."\<close>.
\<close>

theorem C1_two_steps_counterexample:
  "map step_text
     (steps (synthesizeRecipe keepCase [] []
        (js ''Preheat the oven. Add flour and stir gently. Serve warm.'')))
   \<noteq> [js ''Add flour and stir gently.'', js ''Serve warm.'']"
  by (simp add: synthesizeRecipe_def preheat_extractSteps numberSteps_3)

text \<open>
  C1, amended: for the transcript
  \<^verbatim>\<open>"Preheat the oven. Add flour and stir gently. Serve warm."\<close> with empty title and
  description, step extraction yields exactly three steps, numbered 1 to 3:
  \<^verbatim>\<open>"Preheat the oven."\<close>, \<^verbatim>\<open>"Add flour and stir gently."\<close> and \<^verbatim>\<open>"Serve warm."\<close>. The
  first sentence is kept, because \<^verbatim>\<open>Preheat\<close> contains the cue word \<^verbatim>\<open>heat\<close> and the cue
  expression matches inside words.
\<close>

theorem C1_preheat_three_steps:
  "steps (synthesizeRecipe U [] []
      (js ''Preheat the oven. Add flour and stir gently. Serve warm.'')) =
     [\<lparr>step_n = 1, step_text = js ''Preheat the oven.''\<rparr>,
      \<lparr>step_n = 2, step_text = js ''Add flour and stir gently.''\<rparr>,
      \<lparr>step_n = 3, step_text = js ''Serve warm.''\<rparr>]
   \<and> containsCI (js ''heat'') (js ''Preheat the oven.'')"
  by (simp add: synthesizeRecipe_def preheat_extractSteps numberSteps_3 preheat_heat)

text \<open>
  C9: when the transcript and the description are both empty, recipe synthesis emits
  exactly one step, numbered 1, whose text is the placeholder
  \<^verbatim>\<open>"Review ingredients and steps from the video."\<close>, whatever the title.
\<close>

theorem C9_empty_inputs_single_placeholder_step:
  "steps (synthesizeRecipe U t [] []) =
     [\<lparr>step_n = 1, step_text = js ''Review ingredients and steps from the video.''\<rparr>]"
  by (simp add: synthesizeRecipe_def extractSteps_def numberSteps_def)

section \<open>Properties of the transcript retriever\<close>

text \<open>Every attempt of the loop makes exactly one request, and the loop never throws.\<close>

lemma legacyAttempt_hist:
  "snd (legacyAttempt net hist v l) = hist @ [Request (timedtextUrl l v) None]"
  by (simp add: legacyAttempt_def fetch_def split: option.splits)

lemma legacyLoop_total: "\<exists>t. fst (legacyLoop net hist v ls) = Inr t"
proof (induction ls arbitrary: hist)
  case Nil
  show ?case by simp
next
  case (Cons l ls)
  obtain r h1 where a: "legacyAttempt net hist v l = (r, h1)"
    by (cases "legacyAttempt net hist v l")
  show ?case
  proof (cases r)
    case (Inl e)
    with a Cons.IH [of h1] show ?thesis by simp
  next
    case (Inr o1)
    with a Cons.IH [of h1] show ?thesis by (cases o1) simp_all
  qed
qed

lemma legacyLoop_exhausted:
  assumes "\<And>i t. i < length ls \<Longrightarrow>
             fst (legacyAttempt net
                    (hist @ map (\<lambda>l. Request (timedtextUrl l v) None) (take i ls)) v (ls ! i))
             \<noteq> Inr (Some t)"
  shows "legacyLoop net hist v ls = (Inr [], hist @ map (\<lambda>l. Request (timedtextUrl l v) None) ls)"
  using assms
proof (induction ls arbitrary: hist)
  case Nil
  show ?case by simp
next
  case (Cons l ls)
  obtain r h1 where a: "legacyAttempt net hist v l = (r, h1)"
    by (cases "legacyAttempt net hist v l")
  have h1: "h1 = hist @ [Request (timedtextUrl l v) None]"
    using legacyAttempt_hist [of net hist v l] a by simp
  have r: "\<And>t. r \<noteq> Inr (Some t)"
    using Cons.prems [of 0] a by simp
  have "legacyLoop net h1 v ls = (Inr [], h1 @ map (\<lambda>l. Request (timedtextUrl l v) None) ls)"
  proof (rule Cons.IH)
    fix i t
    assume "i < length ls"
    then show "fst (legacyAttempt net
                      (h1 @ map (\<lambda>l. Request (timedtextUrl l v) None) (take i ls)) v (ls ! i))
               \<noteq> Inr (Some t)"
      using Cons.prems [of "Suc i" t] h1 by simp
  qed
  then have rest: "legacyLoop net h1 v ls
                     = (Inr [], hist @ map (\<lambda>l. Request (timedtextUrl l v) None) (l # ls))"
    using h1 by simp
  show ?case
  proof (cases r)
    case (Inl e)
    with a rest show ?thesis by simp
  next
    case (Inr o1)
    with r have "o1 = None" by (cases o1) auto
    with Inr a rest show ?thesis by simp
  qed
qed

lemma legacyLoop_caught:
  "fst (legacyAttempt net hist v l) = Inl e \<Longrightarrow>
   legacyLoop net hist v (l # ls) = legacyLoop net (snd (legacyAttempt net hist v l)) v ls"
  by (cases "legacyAttempt net hist v l") simp

lemma tryFetchYouTubeTranscript_total:
  "\<exists>t. fst (tryFetchYouTubeTranscript J net hist url) = Inr t"
proof (cases "firstMatch videoIdPattern url")
  case None
  then show ?thesis by (simp add: tryFetchYouTubeTranscript_def)
next
  case (Some v)
  obtain r h1 where a: "primaryAttempt J net hist v = (r, h1)"
    by (cases "primaryAttempt J net hist v")
  show ?thesis
  proof (cases r)
    case (Inl e)
    with a Some legacyLoop_total [of net h1 v langs] show ?thesis
      by (simp add: tryFetchYouTubeTranscript_def)
  next
    case (Inr o1)
    with a Some legacyLoop_total [of net h1 v langs] show ?thesis
      by (cases o1) (simp_all add: tryFetchYouTubeTranscript_def)
  qed
qed

lemma videoIdPattern_length: "videoIdPattern s = Some v \<Longrightarrow> 6 \<le> length v"
  by (auto simp: videoIdPattern_def split: list.splits if_splits option.splits)

lemma firstMatch_videoId_length: "firstMatch videoIdPattern url = Some v \<Longrightarrow> 6 \<le> length v"
proof (induction url)
  case Nil
  then show ?case by (simp add: videoIdPattern_length)
next
  case (Cons c cs)
  then show ?case
    by (cases "videoIdPattern (c # cs)") (simp_all add: videoIdPattern_length)
qed

lemma offline_primaryAttempt:
  "primaryAttempt J offline hist v =
     (Inl NetworkError,
      hist @ [Request (js ''https://www.youtube.com/watch?v='' @ v) (Some (js ''en''))])"
  by (simp add: primaryAttempt_def fetch_def offline_def)

lemma offline_legacyAttempt: "fst (legacyAttempt offline hist v l) = Inl NetworkError"
  by (simp add: legacyAttempt_def fetch_def offline_def)

lemma watch_url_videoId:
  "firstMatch videoIdPattern (js ''https://www.youtube.com/watch?v=abc123'') = Some (js ''abc123'')"
  by (simp add: js_def videoIdPattern_def isIdChar_def isLetter_def isLower_def isUpper_def
        isDigit_def)

lemma plain_text_no_videoId: "firstMatch videoIdPattern (js ''not a video'') = None"
  by (simp add: js_def videoIdPattern_def)

text \<open>
  C8: transcript retrieval never fails and returns a string, possibly empty. If the
  URL holds no video identifier the result is the empty string and no request is made.
  An exception inside the first attempt or inside an attempt of the loop is caught, and
  retrieval goes on with the next attempt as if the attempt had ended without a
  transcript. When all attempts are exhausted, that is, the first attempt and then each
  attempt of the loop, on the request log it meets, obtains no transcript, the result
  is the empty string, and after the requests of the first attempt exactly the legacy
  endpoint has been asked, for the languages en, en-US, en-GB, es, es-419 in that
  order.
\<close>

theorem C8_transcript_never_fails:
  "(\<exists>t. fst (tryFetchYouTubeTranscript J net hist url) = Inr t)
   \<and> (firstMatch videoIdPattern url = None \<longrightarrow>
        tryFetchYouTubeTranscript J net hist url = (Inr [], hist))
   \<and> (firstMatch videoIdPattern url = Some v \<and> fst (primaryAttempt J net hist v) = Inl e \<longrightarrow>
        tryFetchYouTubeTranscript J net hist url
          = legacyLoop net (snd (primaryAttempt J net hist v)) v langs)
   \<and> (fst (legacyAttempt net hist v l) = Inl e \<longrightarrow>
        legacyLoop net hist v (l # ls) = legacyLoop net (snd (legacyAttempt net hist v l)) v ls)
   \<and> (firstMatch videoIdPattern url = Some v
        \<and> (\<forall>t. fst (primaryAttempt J net hist v) \<noteq> Inr (Some t))
        \<and> (\<forall>i < length langs. \<forall>t.
              fst (legacyAttempt net
                     (snd (primaryAttempt J net hist v)
                      @ map (\<lambda>l. Request (timedtextUrl l v) None) (take i langs))
                     v (langs ! i))
              \<noteq> Inr (Some t)) \<longrightarrow>
        tryFetchYouTubeTranscript J net hist url
          = (Inr [],
             snd (primaryAttempt J net hist v)
             @ map (\<lambda>l. Request (timedtextUrl l v) None)
                 (map js [''en'', ''en-US'', ''en-GB'', ''es'', ''es-419''])))"
proof (intro conjI impI)
  show "\<exists>t. fst (tryFetchYouTubeTranscript J net hist url) = Inr t"
    by (rule tryFetchYouTubeTranscript_total)
next
  assume "firstMatch videoIdPattern url = None"
  then show "tryFetchYouTubeTranscript J net hist url = (Inr [], hist)"
    by (simp add: tryFetchYouTubeTranscript_def)
next
  assume a: "firstMatch videoIdPattern url = Some v \<and> fst (primaryAttempt J net hist v) = Inl e"
  then have "v \<noteq> []"
    using firstMatch_videoId_length [of url v] by auto
  with a show "tryFetchYouTubeTranscript J net hist url
          = legacyLoop net (snd (primaryAttempt J net hist v)) v langs"
    by (cases "primaryAttempt J net hist v") (simp add: tryFetchYouTubeTranscript_def)
next
  assume "fst (legacyAttempt net hist v l) = Inl e"
  then show "legacyLoop net hist v (l # ls) = legacyLoop net (snd (legacyAttempt net hist v l)) v ls"
    by (rule legacyLoop_caught)
next
  assume a: "firstMatch videoIdPattern url = Some v
        \<and> (\<forall>t. fst (primaryAttempt J net hist v) \<noteq> Inr (Some t))
        \<and> (\<forall>i < length langs. \<forall>t.
              fst (legacyAttempt net
                     (snd (primaryAttempt J net hist v)
                      @ map (\<lambda>l. Request (timedtextUrl l v) None) (take i langs))
                     v (langs ! i))
              \<noteq> Inr (Some t))"
  then have ne: "v \<noteq> []"
    using firstMatch_videoId_length [of url v] by auto
  obtain r h1 where p: "primaryAttempt J net hist v = (r, h1)"
    by (cases "primaryAttempt J net hist v")
  have ex: "legacyLoop net h1 v langs
              = (Inr [], h1 @ map (\<lambda>l. Request (timedtextUrl l v) None) langs)"
  proof (rule legacyLoop_exhausted)
    fix i t
    assume "i < length langs"
    then show "fst (legacyAttempt net
                      (h1 @ map (\<lambda>l. Request (timedtextUrl l v) None) (take i langs)) v
                      (langs ! i))
               \<noteq> Inr (Some t)"
      using a p by auto
  qed
  have r: "\<And>t. r \<noteq> Inr (Some t)"
    using a p by simp
  have "tryFetchYouTubeTranscript J net hist url = legacyLoop net h1 v langs"
  proof (cases r)
    case (Inl x)
    with a p ne show ?thesis by (simp add: tryFetchYouTubeTranscript_def)
  next
    case (Inr o1)
    with r have "o1 = None" by (cases o1) auto
    with Inr a p ne show ?thesis by (simp add: tryFetchYouTubeTranscript_def)
  qed
  with ex p show "tryFetchYouTubeTranscript J net hist url
          = (Inr [],
             snd (primaryAttempt J net hist v)
             @ map (\<lambda>l. Request (timedtextUrl l v) None)
                 (map js [''en'', ''en-US'', ''en-GB'', ''es'', ''es-419'']))"
    by (simp add: langs_def)
qed

theorem C8_transcript_never_fails_witness:
  "tryFetchYouTubeTranscript noJson offline [] (js ''not a video'') = (Inr [], [])
   \<and> tryFetchYouTubeTranscript noJson offline [] (js ''https://www.youtube.com/watch?v=abc123'')
       = (Inr [],
          [Request (js ''https://www.youtube.com/watch?v='' @ js ''abc123'') (Some (js ''en'')),
           Request (timedtextUrl (js ''en'') (js ''abc123'')) None,
           Request (timedtextUrl (js ''en-US'') (js ''abc123'')) None,
           Request (timedtextUrl (js ''en-GB'') (js ''abc123'')) None,
           Request (timedtextUrl (js ''es'') (js ''abc123'')) None,
           Request (timedtextUrl (js ''es-419'') (js ''abc123'')) None])"
proof -
  have n: "firstMatch videoIdPattern (js ''not a video'') = None"
    by (rule plain_text_no_videoId)
  have h: "firstMatch videoIdPattern (js ''https://www.youtube.com/watch?v=abc123'')
             = Some (js ''abc123'')
           \<and> (\<forall>t. fst (primaryAttempt noJson offline [] (js ''abc123'')) \<noteq> Inr (Some t))
           \<and> (\<forall>i < length langs. \<forall>t.
                 fst (legacyAttempt offline
                        (snd (primaryAttempt noJson offline [] (js ''abc123''))
                         @ map (\<lambda>l. Request (timedtextUrl l (js ''abc123'')) None) (take i langs))
                        (js ''abc123'') (langs ! i))
                 \<noteq> Inr (Some t))"
    by (simp add: watch_url_videoId offline_primaryAttempt offline_legacyAttempt)
  have a: "tryFetchYouTubeTranscript noJson offline [] (js ''not a video'') = (Inr [], [])"
    using C8_transcript_never_fails
            [of noJson offline "[]" "js ''not a video''" "js ''abc123''" NetworkError "js ''en''" "[]"]
          n
    by blast
  have b: "tryFetchYouTubeTranscript noJson offline []
             (js ''https://www.youtube.com/watch?v=abc123'')
           = (Inr [],
              snd (primaryAttempt noJson offline [] (js ''abc123''))
              @ map (\<lambda>l. Request (timedtextUrl l (js ''abc123'')) None)
                  (map js [''en'', ''en-US'', ''en-GB'', ''es'', ''es-419'']))"
    using C8_transcript_never_fails
            [of noJson offline "[]" "js ''https://www.youtube.com/watch?v=abc123''" "js ''abc123''"
                NetworkError "js ''en''" "[]"]
          h
    by blast
  show ?thesis
    unfolding a b by (simp add: offline_primaryAttempt)
qed

section \<open>Properties of the source resolver\<close>

lemma escapedPage_no_player: "firstMatch playerResponsePattern escapedPage = None"
  by (simp add: escapedPage_def escapedDescription_def js_def playerResponsePattern_def)

lemma escapedPage_no_ogTitle: "firstMatch ogTitlePattern escapedPage = None"
  by (simp add: escapedPage_def escapedDescription_def js_def ogTitlePattern_def asciiUpper_def
        isLower_def)

lemma escapedPage_shortDescription:
  "firstMatch shortDescriptionPattern escapedPage = Some escapedDescription"
  by (simp add: escapedPage_def escapedDescription_def js_def shortDescriptionPattern_def
        isCrawlableTail_def isWhiteSpace_def)

lemma escapedDescription_nonempty: "escapedDescription \<noteq> []"
  by (simp add: escapedDescription_def)

lemma escaped_description_rejected:
  \<open>JSON_parse_string
     (js ''"'' @ replaceAll [92, 34] (js ''"'') (replaceAll [92, 110] (js ''\<newline>'')
        escapedDescription) @ js ''"'')
   = Inl SyntaxError\<close>
  by (simp add: escapedDescription_def js_def JSON_parse_string_def)

lemma escapedPage_resolvePage: "resolvePage J escapedPage = Inl SyntaxError"
  unfolding resolvePage_def escapedPage_no_player escapedPage_no_ogTitle
    escapedPage_shortDescription
  by (simp add: escaped_description_rejected escapedDescription_nonempty)

text \<open>
  C2 does not hold of the code. For the fetched page text above every fallback step is
  reached, the description fallback unescapes backslash-n to a raw line feed and hands
  the text to a bare \<^verbatim>\<open>JSON.parse\<close>, which throws; nothing in \<^verbatim>\<open>fetchYouTubePage\<close>
  catches it, so no title/description pair is returned. (The player response goes
  through \<^verbatim>\<open>safeJson\<close>; this call does not.) The job-level handler then stores the
  failure result.
\<close>

theorem C2_description_fallback_throws:
  "resolvePage J escapedPage = Inl SyntaxError
   \<and> fst (fetchYouTubePage J (always escapedPage) hist url) = Inl SyntaxError
   \<and> fst (runPipeline U N J (always escapedPage) hist url) = failedResult"
  by (simp add: fetchYouTubePage_def runPipeline_def fetch_def always_def escapedPage_resolvePage)

section \<open>Properties of the job orchestrator\<close>

lemma fallbackRecipe_steps:
  "steps (fallbackRecipe m) = [\<lparr>step_n = 1, step_text = m\<rparr>]"
  by (simp add: fallbackRecipe_def)

lemma startJob_no_record:
  "upload_id \<noteq> [] \<Longrightarrow> uploads st upload_id = None \<Longrightarrow>
   startJob st (Some upload_id) uuid =
     (Accepted (js ''job_'' @ uuid) (js ''/api/jobs/'' @ (js ''job_'' @ uuid) @ js ''/events''),
      st\<lparr>jobResults := (jobResults st)(js ''job_'' @ uuid \<mapsto> pendingResult)\<rparr>, None)"
  by (cases upload_id) (simp_all add: startJob_def StartJobReq_def Let_def)

lemma startJob_file_record:
  "upload_id \<noteq> [] \<Longrightarrow> uploads st upload_id = Some u \<Longrightarrow> source_type u = File \<Longrightarrow>
   startJob st (Some upload_id) uuid =
     (Accepted (js ''job_'' @ uuid) (js ''/api/jobs/'' @ (js ''job_'' @ uuid) @ js ''/events''),
      st\<lparr>jobResults := (jobResults st)(js ''job_'' @ uuid \<mapsto> pendingResult)\<rparr>, None)"
  by (cases upload_id) (simp_all add: startJob_def StartJobReq_def Let_def split: option.splits)

lemma startJob_url_record:
  "upload_id \<noteq> [] \<Longrightarrow> uploads st upload_id = Some u \<Longrightarrow> source_type u = Url \<Longrightarrow>
   source_url u = Some v \<Longrightarrow> v \<noteq> [] \<Longrightarrow>
   startJob st (Some upload_id) uuid =
     (Accepted (js ''job_'' @ uuid) (js ''/api/jobs/'' @ (js ''job_'' @ uuid) @ js ''/events''),
      st, Some (js ''job_'' @ uuid, v))"
  by (cases upload_id) (simp_all add: startJob_def StartJobReq_def Let_def)

text \<open>
  C6, as stated, fails: the request with the empty upload id matches no record (here no
  record exists at all), and the handler answers 400 and stores nothing.
\<close>

theorem C6_empty_upload_id_counterexample:
  "uploads emptyState [] = None
   \<and> startJob emptyState (Some []) (js ''u1'') = (BadRequest, emptyState, None)
   \<and> jobResults (fst (snd (startJob emptyState (Some []) (js ''u1'')))) (js ''job_u1'') = None"
  by (simp add: startJob_def StartJobReq_def emptyState_def)

text \<open>
  C6, amended: for every start-job request with a non-empty upload id whose upload
  record describes a file source, and for every such request whose upload id matches no
  record, the handler launches no asynchronous work and stores, before it returns, a
  fallback JobResult under the new job id; the steps of its recipe are exactly one
  step, numbered 1, whose text is \<^verbatim>\<open>"File processing not implemented"\<close>. (A request
  whose upload id is empty is rejected by the request schema and stores nothing.)
\<close>

theorem C6_file_or_unknown_upload_stores_fallback:
  assumes "upload_id \<noteq> []"
    and "uploads st upload_id = None
         \<or> (\<exists>u. uploads st upload_id = Some u \<and> source_type u = File)"
  shows "startJob st (Some upload_id) uuid =
           (Accepted (js ''job_'' @ uuid) (js ''/api/jobs/'' @ (js ''job_'' @ uuid) @ js ''/events''),
            st\<lparr>jobResults := (jobResults st)(js ''job_'' @ uuid \<mapsto> pendingResult)\<rparr>, None)
         \<and> steps (recipe_json pendingResult) =
             [\<lparr>step_n = 1, step_text = js ''File processing not implemented''\<rparr>]
         \<and> startJob st (Some []) uuid = (BadRequest, st, None)
         \<and> startJob st None uuid = (BadRequest, st, None)"
proof -
  have "startJob st (Some upload_id) uuid =
           (Accepted (js ''job_'' @ uuid) (js ''/api/jobs/'' @ (js ''job_'' @ uuid) @ js ''/events''),
            st\<lparr>jobResults := (jobResults st)(js ''job_'' @ uuid \<mapsto> pendingResult)\<rparr>, None)
         \<and> steps (recipe_json pendingResult) =
             [\<lparr>step_n = 1, step_text = js ''File processing not implemented''\<rparr>]"
    using assms
    by (auto simp: startJob_no_record startJob_file_record pendingResult_def fallbackRecipe_steps)
  moreover have "startJob st (Some []) uuid = (BadRequest, st, None)"
    and "startJob st None uuid = (BadRequest, st, None)"
    by (simp_all add: startJob_def StartJobReq_def)
  ultimately show ?thesis
    by blast
qed

theorem C6_file_or_unknown_upload_witness:
  "jobResults (fst (snd (startJob emptyState (Some (js ''upl_1'')) (js ''u1'')))) (js ''job_u1'')
     = Some pendingResult
   \<and> snd (snd (startJob emptyState (Some (js ''upl_1'')) (js ''u1''))) = None
   \<and> jobResults
        (fst (snd (startJob
           \<lparr>uploads = [js ''upl_1'' \<mapsto>
                \<lparr>source_type = File, source_url = None, filename = js ''a.mp4'', size_bytes = 10\<rparr>],
            jobResults = Map.empty\<rparr>
           (Some (js ''upl_1'')) (js ''u1'')))) (js ''job_u1'')
     = Some pendingResult"
proof -
  have ne: "js ''upl_1'' \<noteq> []"
    by (simp add: js_def)
  have a: "uploads emptyState (js ''upl_1'') = None
           \<or> (\<exists>u. uploads emptyState (js ''upl_1'') = Some u \<and> source_type u = File)"
    by (simp add: emptyState_def)
  have b: "uploads \<lparr>uploads = [js ''upl_1'' \<mapsto>
                \<lparr>source_type = File, source_url = None, filename = js ''a.mp4'', size_bytes = 10\<rparr>],
            jobResults = Map.empty\<rparr> (js ''upl_1'') = None
           \<or> (\<exists>u. uploads \<lparr>uploads = [js ''upl_1'' \<mapsto>
                \<lparr>source_type = File, source_url = None, filename = js ''a.mp4'', size_bytes = 10\<rparr>],
            jobResults = Map.empty\<rparr> (js ''upl_1'') = Some u \<and> source_type u = File)"
    by simp
  show ?thesis
    using C6_file_or_unknown_upload_stores_fallback [OF ne a, of "js ''u1''"]
      C6_file_or_unknown_upload_stores_fallback [OF ne b, of "js ''u1''"]
    by (simp add: js_def)
qed

text \<open>
  C7, as stated, fails: the empty string is a job id for which no result has been
  stored, and retrieval answers with the invalid-request error (400), which is neither
  the not-ready signal nor a stored result.
\<close>

theorem C7_empty_job_id_counterexample:
  "jobResults emptyState [] = None
   \<and> getRecipe emptyState (Some []) = InvalidRequest
   \<and> getRecipe emptyState (Some []) \<noteq> NotReady"
  by (simp add: getRecipe_def emptyState_def)

text \<open>
  C7, amended: for every non-empty job id for which no JobResult has been stored,
  whether the id was never created or its pipeline has not yet finished (a start-job
  request for a URL source stores nothing when it returns), result retrieval returns
  the not-ready signal; once a result is stored for the id, by the fallback of start-job
  or by the finished pipeline, retrieval returns that stored JobResult. (An empty or
  absent job id is answered with the invalid-request error.)
\<close>

theorem C7_not_ready_until_stored:
  assumes "jid \<noteq> []"
  shows "(jobResults st jid = None \<longrightarrow> getRecipe st (Some jid) = NotReady)
         \<and> (jobResults st jid = Some res \<longrightarrow> getRecipe st (Some jid) = Found res)
         \<and> (startJob st b uuid = (resp, st', Some work) \<longrightarrow> jobResults st' = jobResults st)
         \<and> getRecipe (st\<lparr>jobResults := (jobResults st)(jid \<mapsto> res)\<rparr>) (Some jid) = Found res
         \<and> (fst work = jid \<longrightarrow>
              getRecipe (fst (finishJob U N J net hist st work)) (Some jid)
                = Found (fst (runPipeline U N J net hist (snd work))))
         \<and> getRecipe st (Some []) = InvalidRequest
         \<and> getRecipe st None = InvalidRequest"
  using assms
  by (auto simp: getRecipe_def startJob_def finishJob_def Let_def
           split: option.splits if_splits prod.splits)

theorem C7_not_ready_until_stored_witness:
  "getRecipe emptyState (Some (js ''job_u1'')) = NotReady
   \<and> getRecipe (emptyState\<lparr>jobResults := (jobResults emptyState)(js ''job_u1'' \<mapsto> pendingResult)\<rparr>)
        (Some (js ''job_u1'')) = Found pendingResult
   \<and> jobResults (fst (snd (startJob
          \<lparr>uploads = [js ''upl_1'' \<mapsto>
               \<lparr>source_type = Url, source_url = Some (js ''u''), filename = js ''url.mp4'',
                size_bytes = 0\<rparr>],
           jobResults = Map.empty\<rparr>
          (Some (js ''upl_1'')) (js ''u1'')))) = Map.empty
   \<and> getRecipe (fst (finishJob keepCase wholeNumber noJson offline [] emptyState
                       (js ''job_u1'', js ''u''))) (Some (js ''job_u1''))
       = Found failedResult"
proof -
  have ne: "js ''job_u1'' \<noteq> []" "js ''upl_1'' \<noteq> []" "js ''u'' \<noteq> []"
    by (simp_all add: js_def)
  have e: "jobResults emptyState (js ''job_u1'') = None"
    by (simp add: emptyState_def)
  have 1: "getRecipe emptyState (Some (js ''job_u1'')) = NotReady"
    using C7_not_ready_until_stored [OF ne(1), of emptyState] e by blast
  have 2: "getRecipe (emptyState\<lparr>jobResults := (jobResults emptyState)(js ''job_u1'' \<mapsto> pendingResult)\<rparr>)
        (Some (js ''job_u1'')) = Found pendingResult"
    using C7_not_ready_until_stored [OF ne(1), of emptyState pendingResult] by blast
  let ?st = "\<lparr>uploads = [js ''upl_1'' \<mapsto>
               \<lparr>source_type = Url, source_url = Some (js ''u''), filename = js ''url.mp4'',
                size_bytes = 0\<rparr>],
           jobResults = Map.empty\<rparr>"
  have s: "startJob ?st (Some (js ''upl_1'')) (js ''u1'') =
             (Accepted (js ''job_'' @ js ''u1'')
                (js ''/api/jobs/'' @ (js ''job_'' @ js ''u1'') @ js ''/events''),
              ?st, Some (js ''job_'' @ js ''u1'', js ''u''))"
  proof (rule startJob_url_record [OF ne(2) _ _ _ ne(3)])
    show "uploads ?st (js ''upl_1'') =
            Some \<lparr>source_type = Url, source_url = Some (js ''u''), filename = js ''url.mp4'',
                  size_bytes = 0\<rparr>"
      by simp
  qed simp_all
  have 3: "jobResults (fst (snd (startJob ?st (Some (js ''upl_1'')) (js ''u1'')))) = Map.empty"
    using C7_not_ready_until_stored
            [OF ne(1), where st = ?st and b = "Some (js ''upl_1'')" and uuid = "js ''u1''"
               and st' = ?st] s
    by simp
  have p: "fst (runPipeline keepCase wholeNumber noJson offline [] (js ''u'')) = failedResult"
    by (simp add: runPipeline_def fetchYouTubePage_def fetch_def offline_def)
  have 4: "getRecipe (fst (finishJob keepCase wholeNumber noJson offline [] emptyState
                       (js ''job_u1'', js ''u''))) (Some (js ''job_u1''))
       = Found failedResult"
    using C7_not_ready_until_stored
            [OF ne(1), where work = "(js ''job_u1'', js ''u'')" and st = emptyState
               and U = keepCase and N = wholeNumber and J = noJson and net = offline
               and hist = "[]"] p
    by simp
  show ?thesis
    using 1 2 3 4 by blast
qed

section \<open>Properties of the stored results\<close>

lemma runPipeline_success:
  assumes "fetchYouTubePage J net hist url = (Inr (t, d), h1)"
  shows "\<exists>tr. fst (runPipeline U N J net hist url) =
           \<lparr>recipe_json = synthesizeRecipe U t d tr,
            markdown = renderMarkdown N (synthesizeRecipe U t d tr),
            txt' = renderTxt N (synthesizeRecipe U t d tr)\<rparr>"
proof -
  obtain tr where "fst (tryFetchYouTubeTranscript J net h1 url) = Inr tr"
    using tryFetchYouTubeTranscript_total by blast
  then obtain h2 where "tryFetchYouTubeTranscript J net h1 url = (Inr tr, h2)"
    by (cases "tryFetchYouTubeTranscript J net h1 url") simp
  with assms have "fst (runPipeline U N J net hist url) =
           \<lparr>recipe_json = synthesizeRecipe U t d tr,
            markdown = renderMarkdown N (synthesizeRecipe U t d tr),
            txt' = renderTxt N (synthesizeRecipe U t d tr)\<rparr>"
    by (simp add: runPipeline_def Let_def)
  then show ?thesis ..
qed

lemma runPipeline_failure:
  "fetchYouTubePage J net hist url = (Inl e, h1) \<Longrightarrow>
   fst (runPipeline U N J net hist url) = failedResult"
  by (simp add: runPipeline_def)

lemma failedResult_not_rendered:
  "markdown failedResult = js ''# Error''" "txt' failedResult = js ''Error''"
  "markdown failedResult \<noteq> renderMarkdown N (recipe_json failedResult)"
  "txt' failedResult \<noteq> renderTxt N (recipe_json failedResult)"
  by (simp_all add: failedResult_def fallbackRecipe_def renderMarkdown_def renderTxt_def js_def)

lemma pendingResult_not_rendered:
  "markdown pendingResult = js ''# Pending''" "txt' pendingResult = js ''Pending''"
  "markdown pendingResult \<noteq> renderMarkdown N (recipe_json pendingResult)"
  "txt' pendingResult \<noteq> renderTxt N (recipe_json pendingResult)"
  by (simp_all add: pendingResult_def fallbackRecipe_def renderMarkdown_def renderTxt_def js_def)

lemma startJob_stores_pending:
  "startJob st b uuid = (Accepted jid sse, st', None) \<Longrightarrow>
   st' = st\<lparr>jobResults := (jobResults st)(jid \<mapsto> pendingResult)\<rparr>"
  by (auto simp: startJob_def Let_def split: option.splits if_splits)

text \<open>
  C3, as stated, fails: the result stored for an unknown upload id has the markdown
  \<^verbatim>\<open>"# Pending"\<close> and the text \<^verbatim>\<open>"Pending"\<close>, which are not the renderings of the
  stored recipe.
\<close>

theorem C3_pending_exports_counterexample:
  "jobResults (fst (snd (startJob emptyState (Some (js ''upl_1'')) (js ''u1'')))) (js ''job_u1'')
     = Some pendingResult
   \<and> markdown pendingResult \<noteq> renderMarkdown wholeNumber (recipe_json pendingResult)
   \<and> txt' pendingResult \<noteq> renderTxt wholeNumber (recipe_json pendingResult)"
proof -
  have "jobResults (fst (snd (startJob emptyState (Some (js ''upl_1'')) (js ''u1'')))) (js ''job_u1'')
     = Some pendingResult"
    by (simp add: startJob_def StartJobReq_def emptyState_def js_def Let_def)
  then show ?thesis
    using pendingResult_not_rendered(3,4) [of wholeNumber] by blast
qed

text \<open>
  C3, amended: for every JobResult the orchestrator stores on the success path, the
  stored markdown string equals the Markdown renderer applied to the stored recipe and
  the stored text string equals the plain-text renderer applied to the stored recipe.
  On the pipeline-failure path the stored exports are the fixed strings
  \<^verbatim>\<open>"# Error"\<close> and \<^verbatim>\<open>"Error"\<close>, and on the file/unknown-upload path the fixed strings
  \<^verbatim>\<open>"# Pending"\<close> and \<^verbatim>\<open>"Pending"\<close>; these are not renderings of the stored fallback
  recipe.
\<close>

theorem C3_exports_rendered_on_success_path:
  "(fetchYouTubePage J net hist url = (Inr (t, d), h1) \<longrightarrow>
      markdown (fst (runPipeline U N J net hist url))
        = renderMarkdown N (recipe_json (fst (runPipeline U N J net hist url)))
      \<and> txt' (fst (runPipeline U N J net hist url))
        = renderTxt N (recipe_json (fst (runPipeline U N J net hist url))))
   \<and> (fetchYouTubePage J net hist url = (Inl e, h1) \<longrightarrow>
        fst (runPipeline U N J net hist url) = failedResult)
   \<and> markdown failedResult = js ''# Error'' \<and> txt' failedResult = js ''Error''
   \<and> markdown failedResult \<noteq> renderMarkdown N (recipe_json failedResult)
   \<and> txt' failedResult \<noteq> renderTxt N (recipe_json failedResult)
   \<and> (startJob st b uuid = (Accepted jid sse, st', None) \<longrightarrow>
        st' = st\<lparr>jobResults := (jobResults st)(jid \<mapsto> pendingResult)\<rparr>)
   \<and> markdown pendingResult = js ''# Pending'' \<and> txt' pendingResult = js ''Pending''
   \<and> markdown pendingResult \<noteq> renderMarkdown N (recipe_json pendingResult)
   \<and> txt' pendingResult \<noteq> renderTxt N (recipe_json pendingResult)"
proof (intro conjI impI)
  assume a: "fetchYouTubePage J net hist url = (Inr (t, d), h1)"
  from runPipeline_success [OF a, of U N]
  show "markdown (fst (runPipeline U N J net hist url))
        = renderMarkdown N (recipe_json (fst (runPipeline U N J net hist url)))"
    and "txt' (fst (runPipeline U N J net hist url))
        = renderTxt N (recipe_json (fst (runPipeline U N J net hist url)))"
    by auto
next
  assume "fetchYouTubePage J net hist url = (Inl e, h1)"
  then show "fst (runPipeline U N J net hist url) = failedResult"
    by (rule runPipeline_failure)
next
  assume "startJob st b uuid = (Accepted jid sse, st', None)"
  then show "st' = st\<lparr>jobResults := (jobResults st)(jid \<mapsto> pendingResult)\<rparr>"
    by (rule startJob_stores_pending)
qed (rule failedResult_not_rendered pendingResult_not_rendered)+

lemma blankPage_resolvePage: "resolvePage noJson (js ''<html>'') = Inr (js ''Recipe'', [])"
proof -
  have a: "firstMatch playerResponsePattern (js ''<html>'') = None"
    by (simp add: js_def playerResponsePattern_def)
  have b: "firstMatch ogTitlePattern (js ''<html>'') = None"
    by (simp add: js_def ogTitlePattern_def asciiUpper_def isLower_def)
  have c: "firstMatch shortDescriptionPattern (js ''<html>'') = None"
    by (simp add: js_def shortDescriptionPattern_def)
  show ?thesis
    unfolding resolvePage_def a b c by simp
qed

theorem C3_exports_rendered_witness:
  "markdown (fst (runPipeline keepCase wholeNumber noJson (always (js ''<html>'')) [] (js ''u'')))
     = renderMarkdown wholeNumber
         (recipe_json (fst (runPipeline keepCase wholeNumber noJson (always (js ''<html>'')) []
            (js ''u''))))
   \<and> fst (runPipeline keepCase wholeNumber noJson offline [] (js ''u'')) = failedResult
   \<and> fst (snd (startJob emptyState (Some (js ''upl_1'')) (js ''u1'')))
       = emptyState\<lparr>jobResults := (jobResults emptyState)(js ''job_u1'' \<mapsto> pendingResult)\<rparr>"
proof -
  have a: "fetchYouTubePage noJson (always (js ''<html>'')) [] (js ''u'')
             = (Inr (js ''Recipe'', []), [Request (js ''u'') (Some (js ''en''))])"
    by (simp add: fetchYouTubePage_def fetch_def always_def blankPage_resolvePage)
  have b: "fetchYouTubePage noJson offline [] (js ''u'')
             = (Inl NetworkError, [Request (js ''u'') (Some (js ''en''))])"
    by (simp add: fetchYouTubePage_def fetch_def offline_def)
  have c: "startJob emptyState (Some (js ''upl_1'')) (js ''u1'')
             = (Accepted (js ''job_u1'') (js ''/api/jobs/job_u1/events''),
                emptyState\<lparr>jobResults := (jobResults emptyState)(js ''job_u1'' \<mapsto> pendingResult)\<rparr>,
                None)"
    by (simp add: startJob_def StartJobReq_def emptyState_def js_def Let_def)
  have 1: "markdown (fst (runPipeline keepCase wholeNumber noJson (always (js ''<html>'')) [] (js ''u'')))
     = renderMarkdown wholeNumber
         (recipe_json (fst (runPipeline keepCase wholeNumber noJson (always (js ''<html>'')) []
            (js ''u''))))"
    using C3_exports_rendered_on_success_path
            [of noJson "always (js ''<html>'')" "[]" "js ''u''" "js ''Recipe''" "[]"
                "[Request (js ''u'') (Some (js ''en''))]" keepCase wholeNumber] a
    by blast
  have 2: "fst (runPipeline keepCase wholeNumber noJson offline [] (js ''u'')) = failedResult"
    using C3_exports_rendered_on_success_path
            [of noJson offline "[]" "js ''u''" _ _ "[Request (js ''u'') (Some (js ''en''))]"
                keepCase wholeNumber NetworkError] b
    by blast
  have 3: "fst (snd (startJob emptyState (Some (js ''upl_1'')) (js ''u1'')))
       = emptyState\<lparr>jobResults := (jobResults emptyState)(js ''job_u1'' \<mapsto> pendingResult)\<rparr>"
    using C3_exports_rendered_on_success_path
            [where st = emptyState and b = "Some (js ''upl_1'')" and uuid = "js ''u1''"
               and jid = "js ''job_u1''" and sse = "js ''/api/jobs/job_u1/events''"
               and st' = "emptyState\<lparr>jobResults := (jobResults emptyState)(js ''job_u1'' \<mapsto> pendingResult)\<rparr>"]
          c
    by simp
  show ?thesis
    using 1 2 3 by blast
qed

section \<open>Step extraction in general\<close>

text \<open>Numbering keeps the texts and their order, and counts from 1.\<close>

lemma numberSteps_text: "map step_text (numberSteps ts) = ts"
proof -
  have "map step_text (numberSteps ts) = map snd (zip [0..<length ts] ts)"
    by (simp add: numberSteps_def case_prod_unfold comp_def)
  then show ?thesis
    by (simp add: map_snd_zip)
qed

lemma numberSteps_length: "length (numberSteps ts) = length ts"
  by (simp add: numberSteps_def)

lemma numberSteps_n: "i < length ts \<Longrightarrow> step_n (numberSteps ts ! i) = i + 1"
  by (simp add: numberSteps_def)

text \<open>The loop keeps the first twelve sentences that match the cue expression.\<close>

lemma pickSteps_take:
  "length picked < 12 \<Longrightarrow>
   pickSteps U picked ss =
     picked @ take (12 - length picked)
                (map (\<lambda>s. capitalize U (stripStepNumber s)) (filter cues ss))"
proof (induction ss arbitrary: picked)
  case Nil
  show ?case by simp
next
  case (Cons s ss)
  show ?case
  proof (cases "cues s")
    case False
    with Cons show ?thesis by (simp add: Let_def)
  next
    case True
    show ?thesis
    proof (cases "length picked = 11")
      case True
      with \<open>cues s\<close> show ?thesis by (simp add: Let_def)
    next
      case False
      with Cons.prems have lt: "length (picked @ [capitalize U (stripStepNumber s)]) < 12"
        by simp
      have "12 - length picked = Suc (12 - length (picked @ [capitalize U (stripStepNumber s)]))"
        using Cons.prems by simp
      with Cons.IH [OF lt] \<open>cues s\<close> lt show ?thesis
        by (simp add: Let_def)
    qed
  qed
qed

lemma pickSteps_from_empty:
  "pickSteps U [] ss = map (\<lambda>s. capitalize U (stripStepNumber s)) (take 12 (filter cues ss))"
  using pickSteps_take [of "[]" U ss] by (simp add: take_map)

text \<open>
  Matching without case is blind to the case of the first code unit, and a cue word,
  made of letters, cannot start at a code unit that is not a letter.
\<close>

lemma asciiUpper_idem: "asciiUpper (asciiUpper c) = asciiUpper c"
  by (auto simp: asciiUpper_def isLower_def)

lemma startsWithCI_upper: "startsWithCI w (asciiUpper c # cs) = startsWithCI w (c # cs)"
  by (cases w) (simp_all add: asciiUpper_idem)

lemma containsCI_upper: "containsCI w (asciiUpper c # cs) = containsCI w (c # cs)"
  by (simp add: startsWithCI_upper)

lemma containsCI_append: "containsCI w cs \<Longrightarrow> containsCI w (xs @ cs)"
  by (induction xs) simp_all

lemma containsCI_skip:
  assumes "containsCI w (c # cs)" and "\<not> isLetter c" and "w \<noteq> []" and "isLetter (hd w)"
  shows "containsCI w cs"
proof -
  obtain p ps where w: "w = p # ps"
    using assms(3) by (cases w) auto
  have "asciiUpper p \<noteq> asciiUpper c"
    using assms(2,4) w by (auto simp: asciiUpper_def isLetter_def isLower_def isUpper_def)
  with assms(1) w show ?thesis by simp
qed

lemma containsCI_dropWhile:
  assumes "\<And>c. P c \<Longrightarrow> \<not> isLetter c" and "w \<noteq> []" and "isLetter (hd w)"
  shows "containsCI w s \<Longrightarrow> containsCI w (dropWhile P s)"
proof (induction s)
  case Nil
  then show ?case by simp
next
  case (Cons c cs)
  show ?case
  proof (cases "P c")
    case True
    then have "containsCI w cs"
      using containsCI_skip [OF Cons.prems _ assms(2,3)] assms(1) by blast
    with True Cons.IH show ?thesis by simp
  next
    case False
    with Cons.prems show ?thesis by simp
  qed
qed

lemma digit_not_letter: "isDigit c \<Longrightarrow> \<not> isLetter c"
  by (auto simp: isDigit_def isLetter_def isLower_def isUpper_def)

lemma whiteSpace_not_letter: "isWhiteSpace c \<Longrightarrow> \<not> isLetter c"
  by (auto simp: isWhiteSpace_def isLetter_def isLower_def isUpper_def)

lemma containsCI_stripStepNumber:
  assumes "containsCI w s" and "w \<noteq> []" and "isLetter (hd w)"
  shows "containsCI w (stripStepNumber s)"
proof (cases "dropWhile isDigit s")
  case Nil
  show ?thesis
    unfolding stripStepNumber_def Nil using assms(1) by simp
next
  case (Cons c r)
  show ?thesis
  proof (cases "takeWhile isDigit s \<noteq> [] \<and> c \<in> set [58, 46, 41]")
    case False
    show ?thesis
      unfolding stripStepNumber_def Cons using False assms(1) by auto
  next
    case True
    have "containsCI w (dropWhile isDigit s)"
      using containsCI_dropWhile [OF digit_not_letter assms(2,3) assms(1)] .
    moreover have "\<not> isLetter c"
      using True by (auto simp: isLetter_def isLower_def isUpper_def)
    ultimately have "containsCI w r"
      using Cons containsCI_skip [OF _ _ assms(2,3)] by simp
    then have "containsCI w (dropWhile isWhiteSpace r)"
      using containsCI_dropWhile [OF whiteSpace_not_letter assms(2,3)] by blast
    then show ?thesis
      unfolding stripStepNumber_def Cons using True by simp
  qed
qed

lemma containsCI_capitalize:
  assumes "containsCI w s" and "w \<noteq> []" and "isLetter (hd w)"
  shows "containsCI w (capitalize U s)"
proof (cases s)
  case Nil
  with assms(1) show ?thesis by (simp add: capitalize_def)
next
  case (Cons c cs)
  show ?thesis
  proof (cases "c < 128")
    case True
    with Cons assms(1) show ?thesis
      using containsCI_upper [of w c cs] by (simp add: capitalize_def toUpperCase1_def)
  next
    case False
    then have "\<not> isLetter c"
      by (auto simp: isLetter_def isLower_def isUpper_def)
    then have "containsCI w cs"
      using containsCI_skip [OF _ _ assms(2,3)] assms(1) Cons by blast
    then have "containsCI w (U c @ cs)"
      by (rule containsCI_append)
    with False Cons show ?thesis by (simp add: capitalize_def toUpperCase1_def)
  qed
qed

lemma containsCI_upperFirstLower: "containsCI w s \<Longrightarrow> containsCI w (upperFirstLower s)"
proof (cases s)
  case Nil
  then show "containsCI w s \<Longrightarrow> ?thesis" by (simp add: upperFirstLower_def)
next
  case (Cons c cs)
  have "upperFirstLower s = asciiUpper c # cs"
    using Cons by (simp add: upperFirstLower_def asciiUpper_def)
  then show "containsCI w s \<Longrightarrow> ?thesis"
    using Cons containsCI_upper [of w c cs] by simp
qed

lemma cueWords_letters: "w \<in> set cueWords \<Longrightarrow> w \<noteq> [] \<and> isLetter (hd w)"
  by (auto simp: cueWords_def js_def isLetter_def isLower_def)

lemma cues_kept:
  assumes "cues s"
  shows "cues (upperFirstLower (capitalize U (stripStepNumber s)))"
proof -
  from assms obtain w where w: "w \<in> set cueWords" "containsCI w s"
    by (auto simp: cues_def list_ex_iff)
  then have "containsCI w (upperFirstLower (capitalize U (stripStepNumber s)))"
    using cueWords_letters [OF w(1)]
    by (intro containsCI_upperFirstLower containsCI_capitalize containsCI_stripStepNumber) auto
  with w(1) show ?thesis
    by (auto simp: cues_def list_ex_iff)
qed

lemma sentencesOf_nonempty: "s \<in> set (sentencesOf t) \<Longrightarrow> s \<noteq> []"
  by (simp add: sentencesOf_def)

text \<open>What \<^verbatim>\<open>extractSteps\<close> returns for a text that is not empty.\<close>

lemma extractSteps_with_cue:
  assumes "t \<noteq> []" and "filter cues (sentencesOf t) \<noteq> []"
  shows "extractSteps U t =
           map (\<lambda>s. upperFirstLower (capitalize U (stripStepNumber s)))
               (take 12 (filter cues (sentencesOf t)))"
proof -
  have "take 12 (filter cues (sentencesOf t)) \<noteq> []"
    using assms(2) by (cases "filter cues (sentencesOf t)") simp_all
  then show ?thesis
    using assms(1) by (simp add: extractSteps_def pickSteps_from_empty Let_def comp_def)
qed

lemma extractSteps_without_cue:
  assumes "t \<noteq> []" and "filter cues (sentencesOf t) = []"
  shows "extractSteps U t =
           [upperFirstLower (case sentencesOf t of
                               [] \<Rightarrow> js ''Follow the video steps.''
                             | s # _ \<Rightarrow> s)]"
proof (cases "sentencesOf t")
  case Nil
  with assms show ?thesis
    by (simp add: extractSteps_def pickSteps_from_empty Let_def)
next
  case (Cons s ss)
  then have "s \<noteq> []"
    using sentencesOf_nonempty [of s t] by simp
  with Cons assms show ?thesis
    by (simp add: extractSteps_def pickSteps_from_empty Let_def)
qed

lemma extractSteps_length: "1 \<le> length (extractSteps U t) \<and> length (extractSteps U t) \<le> 12"
proof (cases "t = []")
  case True
  then show ?thesis by (simp add: extractSteps_def)
next
  case False
  show ?thesis
  proof (cases "filter cues (sentencesOf t) = []")
    case True
    with False show ?thesis by (simp add: extractSteps_without_cue)
  next
    case ne: False
    then have "1 \<le> length (take 12 (filter cues (sentencesOf t)))"
      by (cases "filter cues (sentencesOf t)") simp_all
    with False ne show ?thesis by (simp add: extractSteps_with_cue)
  qed
qed

lemma hello_sentences: "sentencesOf (js ''hello there.'') = [js ''hello there.'']"
  by (simp add: sentencesOf_def js_def isWhiteSpace_def isSentenceEnd_def trim_def)

lemma hello_no_cue: "\<not> cues (js ''hello there.'')" "\<not> cues (js ''Hello there.'')"
  by (simp_all add: js_def cues_def cueWords_def asciiUpper_def isLower_def)

lemma hello_extractSteps: "extractSteps U (js ''hello there.'') = [js ''Hello there.'']"
proof -
  have ne: "js ''hello there.'' \<noteq> []"
    by (simp add: js_def)
  have "filter cues (sentencesOf (js ''hello there.'')) = []"
    by (simp add: hello_sentences hello_no_cue)
  from extractSteps_without_cue [OF ne this]
  show ?thesis
    by (simp add: hello_sentences) (simp add: js_def upperFirstLower_def isLower_def)
qed

text \<open>
  C4, as stated, fails: for the transcript \<^verbatim>\<open>"hello there."\<close> the one step is
  \<^verbatim>\<open>"Hello there."\<close>, which is not among the sentences of the transcript (the sentence
  is \<^verbatim>\<open>"hello there."\<close>) and contains no cue word.
\<close>

theorem C4_hello_counterexample:
  "\<not> subseq (map step_text (steps (synthesizeRecipe keepCase [] [] (js ''hello there.''))))
       (sentencesOf (js ''hello there.''))
   \<and> \<not> list_all cues
         (map step_text (steps (synthesizeRecipe keepCase [] [] (js ''hello there.''))))"
proof -
  have ne: "js ''hello there.'' \<noteq> []"
    by (simp add: js_def)
  have d: "js ''Hello there.'' \<noteq> js ''hello there.''"
    by (simp add: js_def)
  have "map step_text (steps (synthesizeRecipe keepCase [] [] (js ''hello there.'')))
          = [js ''Hello there.'']"
    using ne by (simp add: synthesizeRecipe_def numberSteps_text hello_extractSteps)
  then show ?thesis
    using d by (simp add: hello_sentences hello_no_cue)
qed

text \<open>
  C4, amended: for every transcript (and any title and description) between 1 and 12
  steps are produced, and each step's n field equals its 1-based position. When the
  transcript is not empty, the sentences that contain a cue word form a subsequence of
  the sentence-split transcript, and: if there is such a sentence, the step texts are
  the first (at most 12) of them, in order, each with a leading step number removed and
  its first letter capitalised, and each step text contains a cue word from the fixed
  list; if there is none, the single step is the first sentence with its first letter
  capitalised, or the text \<^verbatim>\<open>"Follow the video steps."\<close> when the transcript has no
  sentence, and need not contain a cue word.
\<close>

theorem C4_steps_from_cue_sentences:
  "1 \<le> length (steps (synthesizeRecipe U ti d t))
   \<and> length (steps (synthesizeRecipe U ti d t)) \<le> 12
   \<and> (\<forall>i < length (steps (synthesizeRecipe U ti d t)).
         step_n (steps (synthesizeRecipe U ti d t) ! i) = i + 1)
   \<and> (t \<noteq> [] \<longrightarrow>
        subseq (take 12 (filter cues (sentencesOf t))) (sentencesOf t)
        \<and> (filter cues (sentencesOf t) \<noteq> [] \<longrightarrow>
             map step_text (steps (synthesizeRecipe U ti d t))
               = map (\<lambda>s. upperFirstLower (capitalize U (stripStepNumber s)))
                   (take 12 (filter cues (sentencesOf t)))
             \<and> list_all cues (map step_text (steps (synthesizeRecipe U ti d t))))
        \<and> (filter cues (sentencesOf t) = [] \<longrightarrow>
             map step_text (steps (synthesizeRecipe U ti d t))
               = [upperFirstLower (case sentencesOf t of
                                     [] \<Rightarrow> js ''Follow the video steps.''
                                   | s # _ \<Rightarrow> s)]))"
proof (intro conjI allI impI)
  have "length (steps (synthesizeRecipe U ti d t))
          = length (extractSteps U (if t = [] then d else t))"
    by (simp add: synthesizeRecipe_def numberSteps_length)
  then show "1 \<le> length (steps (synthesizeRecipe U ti d t))"
    and "length (steps (synthesizeRecipe U ti d t)) \<le> 12"
    using extractSteps_length [of U "if t = [] then d else t"] by simp_all
next
  fix i
  assume "i < length (steps (synthesizeRecipe U ti d t))"
  then show "step_n (steps (synthesizeRecipe U ti d t) ! i) = i + 1"
    by (simp add: synthesizeRecipe_def numberSteps_length numberSteps_n)
next
  have "subseq (take 12 (filter cues (sentencesOf t))) (filter cues (sentencesOf t))"
    by (rule prefix_imp_subseq) (rule take_is_prefix)
  moreover have "subseq (filter cues (sentencesOf t)) (sentencesOf t)"
    by (rule subseq_filter_left)
  ultimately show "subseq (take 12 (filter cues (sentencesOf t))) (sentencesOf t)"
    by (rule subseq_order.order_trans)
next
  assume a: "t \<noteq> []" "filter cues (sentencesOf t) \<noteq> []"
  have e: "map step_text (steps (synthesizeRecipe U ti d t)) = extractSteps U t"
    using a(1) by (simp add: synthesizeRecipe_def numberSteps_text)
  show "map step_text (steps (synthesizeRecipe U ti d t))
               = map (\<lambda>s. upperFirstLower (capitalize U (stripStepNumber s)))
                   (take 12 (filter cues (sentencesOf t)))"
    unfolding e by (rule extractSteps_with_cue [OF a])
  have "list_all cues
               (map (\<lambda>s. upperFirstLower (capitalize U (stripStepNumber s)))
                  (take 12 (filter cues (sentencesOf t))))"
    unfolding list_all_iff
  proof (rule ballI)
    fix x
    assume "x \<in> set (map (\<lambda>s. upperFirstLower (capitalize U (stripStepNumber s)))
                        (take 12 (filter cues (sentencesOf t))))"
    then obtain s where s: "s \<in> set (take 12 (filter cues (sentencesOf t)))"
      and x: "x = upperFirstLower (capitalize U (stripStepNumber s))"
      by auto
    from s have "s \<in> set (filter cues (sentencesOf t))"
      by (rule in_set_takeD)
    then have "cues s"
      by simp
    then show "cues x"
      unfolding x by (rule cues_kept)
  qed
  then show "list_all cues (map step_text (steps (synthesizeRecipe U ti d t)))"
    unfolding e extractSteps_with_cue [OF a] .
next
  assume a: "t \<noteq> []" "filter cues (sentencesOf t) = []"
  have e: "map step_text (steps (synthesizeRecipe U ti d t)) = extractSteps U t"
    using a(1) by (simp add: synthesizeRecipe_def numberSteps_text)
  show "map step_text (steps (synthesizeRecipe U ti d t))
               = [upperFirstLower (case sentencesOf t of
                                     [] \<Rightarrow> js ''Follow the video steps.''
                                   | s # _ \<Rightarrow> s)]"
    unfolding e by (rule extractSteps_without_cue [OF a])
qed

theorem C4_steps_from_cue_sentences_witness:
  "map step_text (steps (synthesizeRecipe keepCase [] []
       (js ''Preheat the oven. Add flour and stir gently. Serve warm.'')))
     = map (\<lambda>s. upperFirstLower (capitalize keepCase (stripStepNumber s)))
         (take 12 (filter cues
            (sentencesOf (js ''Preheat the oven. Add flour and stir gently. Serve warm.''))))
   \<and> list_all cues (map step_text (steps (synthesizeRecipe keepCase [] []
       (js ''Preheat the oven. Add flour and stir gently. Serve warm.''))))
   \<and> map step_text (steps (synthesizeRecipe keepCase [] [] (js ''hello there.'')))
       = [upperFirstLower (js ''hello there.'')]"
proof -
  have ne: "js ''Preheat the oven. Add flour and stir gently. Serve warm.'' \<noteq> []"
    "js ''hello there.'' \<noteq> []"
    by (simp_all add: js_def)
  have f: "filter cues (sentencesOf (js ''Preheat the oven. Add flour and stir gently. Serve warm.''))
             \<noteq> []"
    by (simp add: preheat_sentences preheat_cues)
  have g: "filter cues (sentencesOf (js ''hello there.'')) = []"
    by (simp add: hello_sentences hello_no_cue)
  have 1: "map step_text (steps (synthesizeRecipe keepCase [] []
       (js ''Preheat the oven. Add flour and stir gently. Serve warm.'')))
     = map (\<lambda>s. upperFirstLower (capitalize keepCase (stripStepNumber s)))
         (take 12 (filter cues
            (sentencesOf (js ''Preheat the oven. Add flour and stir gently. Serve warm.''))))
   \<and> list_all cues (map step_text (steps (synthesizeRecipe keepCase [] []
       (js ''Preheat the oven. Add flour and stir gently. Serve warm.''))))"
    using C4_steps_from_cue_sentences
            [of keepCase "[]" "[]" "js ''Preheat the oven. Add flour and stir gently. Serve warm.''"]
          ne(1) f
    by blast
  have "map step_text (steps (synthesizeRecipe keepCase [] [] (js ''hello there.'')))
       = [upperFirstLower (case sentencesOf (js ''hello there.'') of
                             [] \<Rightarrow> js ''Follow the video steps.''
                           | s # _ \<Rightarrow> s)]"
    using C4_steps_from_cue_sentences [of keepCase "[]" "[]" "js ''hello there.''"] ne(2) g
    by blast
  then have 2: "map step_text (steps (synthesizeRecipe keepCase [] [] (js ''hello there.'')))
       = [upperFirstLower (js ''hello there.'')]"
    unfolding hello_sentences by simp
  show ?thesis
    using 1 2 by blast
qed

section \<open>Properties of ingredient extraction\<close>

lemma instructionsHeader_not_separator: "isInstructionsHeader l \<Longrightarrow> \<not> isSeparator l"
  by (cases "dropWhile isWhiteSpace l")
     (auto simp: isInstructionsHeader_def isSeparator_def startsWithWordCI_def js_def
        asciiUpper_def isLower_def Let_def split: if_splits)

lemma candidatesOf_after_header:
  assumes "\<forall>l \<in> set pre. \<not> isIngredientsHeader l" and "isIngredientsHeader h"
  shows "candidatesOf (pre @ h # rest) = rest"
proof -
  have "dropWhile (\<lambda>l. \<not> isIngredientsHeader l) (pre @ h # rest) = h # rest"
    using assms by (simp add: dropWhile_append2)
  then show ?thesis
    by (simp add: candidatesOf_def)
qed

text \<open>
  The loop over lines that are all kept, up to a line that stops it: one ingredient per
  line, in order, until there are fifty.
\<close>

lemma collectIngredients_until_header:
  assumes "\<forall>l \<in> set mid. \<not> isSeparator l \<and> \<not> isInstructionsHeader l \<and> hasLetter l"
    and "isInstructionsHeader e" and "length items < 50"
  shows "collectIngredients items (mid @ e # post) =
           items @ take (50 - length items) (map parseIngredientLine mid)"
  using assms
proof (induction mid arbitrary: items)
  case Nil
  then show ?case
    by (simp add: instructionsHeader_not_separator)
next
  case (Cons l mid)
  have l: "\<not> isSeparator l" "\<not> isInstructionsHeader l" "hasLetter l"
    using Cons.prems(1) by simp_all
  show ?case
  proof (cases "length items = 49")
    case True
    with l show ?thesis by (simp add: Let_def)
  next
    case False
    with Cons.prems(3) have lt: "length (items @ [parseIngredientLine l]) < 50"
      by simp
    have "50 - length items = Suc (50 - length (items @ [parseIngredientLine l]))"
      using Cons.prems(3) by simp
    moreover have "collectIngredients (items @ [parseIngredientLine l]) (mid @ e # post) =
            (items @ [parseIngredientLine l])
            @ take (50 - length (items @ [parseIngredientLine l])) (map parseIngredientLine mid)"
      using Cons.prems(1,2) by (intro Cons.IH [OF _ _ lt]) simp_all
    ultimately show ?thesis
      using l lt by (simp add: Let_def)
  qed
qed

lemma extractIngredients_between_headers:
  assumes "linesOf d = pre @ h # mid @ e # post"
    and "\<forall>l \<in> set pre. \<not> isIngredientsHeader l" and "isIngredientsHeader h"
    and "\<forall>l \<in> set mid. \<not> isSeparator l \<and> \<not> isInstructionsHeader l \<and> hasLetter l"
    and "isInstructionsHeader e"
  shows "extractIngredients d = take 50 (map parseIngredientLine mid)"
  using collectIngredients_until_header [OF assms(4,5), of "[]" post]
  by (simp add: extractIngredients_def assms(1) candidatesOf_after_header [OF assms(2,3)])

text \<open>The description of the example, line by line.\<close>

lemma flour_lines:
  "linesOf (js ''Ingredients\<newline>2 cups flour\<newline>1 tsp salt\<newline>Instructions\<newline>Mix.'')
     = [] @ js ''Ingredients'' # [js ''2 cups flour'', js ''1 tsp salt'']
         @ js ''Instructions'' # [js ''Mix.'']"
  by (simp add: linesOf_def js_def trim_def isWhiteSpace_def)

lemma flour_headers:
  "isIngredientsHeader (js ''Ingredients'')" "isInstructionsHeader (js ''Instructions'')"
  by (simp_all add: isIngredientsHeader_def isInstructionsHeader_def startsWithWordCI_def js_def
        asciiUpper_def isLower_def isWhiteSpace_def Let_def)

lemma flour_valid:
  "\<forall>l \<in> set [js ''2 cups flour'', js ''1 tsp salt''].
     \<not> isSeparator l \<and> \<not> isInstructionsHeader l \<and> hasLetter l"
  by (simp add: isInstructionsHeader_def startsWithWordCI_def js_def asciiUpper_def isLower_def
        isWhiteSpace_def isSeparator_def hasLetter_def isLetter_def isUpper_def Let_def)

lemma flour_pattern:
  "ingredientPattern (js ''2 cups flour'') = Some (js ''2'', Some (js ''cups''), js ''flour'')"
  "ingredientPattern (js ''1 tsp salt'') = Some (js ''1'', Some (js ''tsp''), js ''salt'')"
  by (simp_all add: ingredientPattern_def matchUnit_def matchItem_def orElse_def js_def isDigit_def
        isWhiteSpace_def isUnitChar_def isLetter_def isLower_def isUpper_def isLineTerminator_def
        Let_def)

lemma small_numbers: "Number (js ''2'') = Finite 2" "Number (js ''1'') = Finite 1"
  by (simp_all add: Number_def digitsValue_def js_def isDigit_def Let_def toDouble_def
        floorLog2_def roundHalfEven_def pow2_def)

lemma flour_parsed:
  "parseIngredientLine (js ''2 cups flour'')
     = \<lparr>quantity = Some (Finite 2), unit = Some (js ''cups''), item = js ''flour''\<rparr>"
  "parseIngredientLine (js ''1 tsp salt'')
     = \<lparr>quantity = Some (Finite 1), unit = Some (js ''tsp''), item = js ''salt''\<rparr>"
  by (simp_all add: parseIngredientLine_def flour_pattern small_numbers) (simp_all add: js_def)

text \<open>
  C5: for every description whose lines (trimmed, empty ones dropped) are: lines without
  an "Ingredients" header, such a header, valid lines (no dash separator, no
  "Instructions" header, at least one letter each), an "Instructions" header, and
  anything after it, ingredient extraction returns exactly one ingredient for each line
  between the two headers, in order, capped at 50. In particular the description
  \<^verbatim>\<open>"Ingredients\n2 cups flour\n1 tsp salt\nInstructions\nMix."\<close> yields exactly
  quantity 2, unit cups, item flour and quantity 1, unit tsp, item salt.
\<close>

theorem C5_ingredients_between_headers:
  "(linesOf d = pre @ h # mid @ e # post
    \<and> (\<forall>l \<in> set pre. \<not> isIngredientsHeader l) \<and> isIngredientsHeader h
    \<and> (\<forall>l \<in> set mid. \<not> isSeparator l \<and> \<not> isInstructionsHeader l \<and> hasLetter l)
    \<and> isInstructionsHeader e
    \<longrightarrow> extractIngredients d = take 50 (map parseIngredientLine mid))
   \<and> extractIngredients
        (js ''Ingredients\<newline>2 cups flour\<newline>1 tsp salt\<newline>Instructions\<newline>Mix.'')
       = [\<lparr>quantity = Some (Finite 2), unit = Some (js ''cups''), item = js ''flour''\<rparr>,
          \<lparr>quantity = Some (Finite 1), unit = Some (js ''tsp''), item = js ''salt''\<rparr>]"
proof (intro conjI impI)
  assume "linesOf d = pre @ h # mid @ e # post
    \<and> (\<forall>l \<in> set pre. \<not> isIngredientsHeader l) \<and> isIngredientsHeader h
    \<and> (\<forall>l \<in> set mid. \<not> isSeparator l \<and> \<not> isInstructionsHeader l \<and> hasLetter l)
    \<and> isInstructionsHeader e"
  then show "extractIngredients d = take 50 (map parseIngredientLine mid)"
    using extractIngredients_between_headers [of d pre h mid e post] by blast
next
  have "extractIngredients
          (js ''Ingredients\<newline>2 cups flour\<newline>1 tsp salt\<newline>Instructions\<newline>Mix.'')
        = take 50 (map parseIngredientLine [js ''2 cups flour'', js ''1 tsp salt''])"
    by (rule extractIngredients_between_headers [OF flour_lines _ flour_headers(1) flour_valid
               flour_headers(2)]) simp
  then show "extractIngredients
        (js ''Ingredients\<newline>2 cups flour\<newline>1 tsp salt\<newline>Instructions\<newline>Mix.'')
       = [\<lparr>quantity = Some (Finite 2), unit = Some (js ''cups''), item = js ''flour''\<rparr>,
          \<lparr>quantity = Some (Finite 1), unit = Some (js ''tsp''), item = js ''salt''\<rparr>]"
    by (simp add: flour_parsed)
qed

theorem C5_ingredients_between_headers_witness:
  "extractIngredients
     (js ''Ingredients\<newline>2 cups flour\<newline>1 tsp salt\<newline>Instructions\<newline>Mix.'')
   = take 50 (map parseIngredientLine [js ''2 cups flour'', js ''1 tsp salt''])"
proof -
  have "linesOf (js ''Ingredients\<newline>2 cups flour\<newline>1 tsp salt\<newline>Instructions\<newline>Mix.'')
          = [] @ js ''Ingredients'' # [js ''2 cups flour'', js ''1 tsp salt'']
              @ js ''Instructions'' # [js ''Mix.'']
        \<and> (\<forall>l \<in> set []. \<not> isIngredientsHeader l) \<and> isIngredientsHeader (js ''Ingredients'')
        \<and> (\<forall>l \<in> set [js ''2 cups flour'', js ''1 tsp salt''].
              \<not> isSeparator l \<and> \<not> isInstructionsHeader l \<and> hasLetter l)
        \<and> isInstructionsHeader (js ''Instructions'')"
    using flour_lines flour_headers flour_valid by simp
  then show ?thesis
    using C5_ingredients_between_headers
            [of "js ''Ingredients\<newline>2 cups flour\<newline>1 tsp salt\<newline>Instructions\<newline>Mix.''"
                "[]" "js ''Ingredients''" "[js ''2 cups flour'', js ''1 tsp salt'']"
                "js ''Instructions''" "[js ''Mix.'']"]
    by blast
qed

section \<open>The conversion to a double\<close>

text \<open>\<open>bitLength\<close> is the position of the leading binary digit.\<close>

lemma bitLength_bounds: "2 ^ n \<le> k \<Longrightarrow> k < 2 ^ Suc n \<Longrightarrow> bitLength k = Suc n"
proof (induction n arbitrary: k)
  case 0
  then have "k = 1" by simp
  then show ?case by simp
next
  case (Suc n)
  have "2 ^ n \<le> k div 2" and "k div 2 < 2 ^ Suc n"
    using Suc.prems by simp_all
  then have "bitLength (k div 2) = Suc n"
    by (rule Suc.IH)
  moreover have "0 < (2::nat) ^ Suc n"
    by simp
  then have "k \<noteq> 0"
    using Suc.prems(1) by linarith
  ultimately show ?case
    by (subst bitLength.simps) simp
qed

text \<open>
  \<^verbatim>\<open>Number\<close> at some strings: a fraction that is a double, one that is not, an integer
  just above \<open>2 ^ 53\<close> that lies half way between two doubles (the even one wins), its
  neighbour that rounds up, and a one followed by 309 zeros, which is beyond the largest
  double.
\<close>

lemma Number_fraction: "Number (js ''2.50'') = Finite (5 / 2)"
  by (simp add: Number_def digitsValue_def js_def isDigit_def Let_def toDouble_def
        floorLog2_def roundHalfEven_def pow2_def)

lemma Number_tenth: "Number (js ''0.1'') = Finite (3602879701896397 / 36028797018963968)"
  by (simp add: Number_def digitsValue_def js_def isDigit_def Let_def toDouble_def
        floorLog2_def roundHalfEven_def pow2_def)

lemma Number_tie_to_even: "Number (js ''9007199254740993'') = Finite 9007199254740992"
  by (simp add: Number_def digitsValue_def js_def isDigit_def Let_def toDouble_def
        floorLog2_def roundHalfEven_def pow2_def)

lemma Number_round_up: "Number (js ''9007199254740995'') = Finite 9007199254740996"
  by (simp add: Number_def digitsValue_def js_def isDigit_def Let_def toDouble_def
        floorLog2_def roundHalfEven_def pow2_def)

lemma digitsValue_snoc: "digitsValue (ds @ [c]) = 10 * digitsValue ds + (c - 48)"
  by (simp add: digitsValue_def)

lemma digitsValue_zeros: "digitsValue (ds @ replicate n 48) = digitsValue ds * 10 ^ n"
proof (induction n arbitrary: ds)
  case 0
  show ?case by simp
next
  case (Suc n)
  have "ds @ replicate (Suc n) 48 = (ds @ [48]) @ replicate n 48"
    by simp
  then have "digitsValue (ds @ replicate (Suc n) 48) = digitsValue (ds @ [48]) * 10 ^ n"
    using Suc [of "ds @ [48]"] by simp
  then show ?case
    by (simp add: digitsValue_snoc)
qed

lemma toDouble_overflow: "toDouble (10 ^ 309) (10 ^ 0) = Infinity"
proof -
  have a: "bitLength (10 ^ 309) = Suc 1026"
    by (rule bitLength_bounds) simp_all
  have b: "bitLength 1 = 1"
    by simp
  show ?thesis
    unfolding toDouble_def floorLog2_def power_0 a b
    by (simp add: Let_def roundHalfEven_def pow2_def)
qed

lemma Number_overflow: "Number (js ''1'' @ replicate 309 48) = Infinity"
proof -
  have "\<forall>x \<in> set (js ''1'' @ replicate 309 48). isDigit x"
    by (auto simp: js_def isDigit_def)
  then have t: "takeWhile isDigit (js ''1'' @ replicate 309 48) = js ''1'' @ replicate 309 48"
    by (simp only: takeWhile_eq_all_conv)
  have f: "drop (length (js ''1'' @ replicate 309 48) + 1) (js ''1'' @ replicate 309 48) = []"
    by simp
  have d: "digitsValue (js ''1'' @ replicate 309 48) = 10 ^ 309"
    unfolding digitsValue_zeros by (simp add: digitsValue_def js_def)
  show ?thesis
    unfolding Number_def Let_def t f append_Nil2 d list.size
    by (rule toDouble_overflow)
qed

section \<open>A number followed by one word\<close>

text \<open>A greedy quantifier keeps its first success from the top.\<close>

lemma greedy_first: "lo \<le> m \<Longrightarrow> k m = Some r \<Longrightarrow> greedy lo m k = Some r"
  by (cases m) auto

lemma greedy_second:
  "lo \<le> m \<Longrightarrow> k (Suc m) = None \<Longrightarrow> k m = Some r \<Longrightarrow> greedy lo (Suc m) k = Some r"
  by (simp add: greedy_first)

lemma letter_classes:
  "isLetter c \<Longrightarrow> \<not> isWhiteSpace c"
  "isLetter c \<Longrightarrow> \<not> isLineTerminator c"
  "isLetter c \<Longrightarrow> \<not> isDigit c"
  "isLetter c \<Longrightarrow> isUnitChar c"
  "isLetter c \<Longrightarrow> c \<noteq> 46"
  "isLetter c \<Longrightarrow> c \<noteq> 10"
  by (auto simp: isLetter_def isLower_def isUpper_def isWhiteSpace_def isLineTerminator_def
        isDigit_def isUnitChar_def)

lemma digit_classes:
  "isDigit c \<Longrightarrow> \<not> isWhiteSpace c"
  "isDigit c \<Longrightarrow> c \<noteq> 45"
  "isDigit c \<Longrightarrow> c \<noteq> 10"
  "isDigit c \<Longrightarrow> asciiUpper c = c"
  by (auto simp: isDigit_def isWhiteSpace_def asciiUpper_def isLower_def)

lemma whiteSpace_classes:
  "isWhiteSpace c \<Longrightarrow> \<not> isDigit c"
  "isWhiteSpace c \<Longrightarrow> c \<noteq> 46"
  by (auto simp: isDigit_def isWhiteSpace_def)

lemma matchItem_empty: "matchItem num u [] = None"
  by (simp add: matchItem_def)

lemma matchItem_letters:
  assumes "w \<noteq> []" and "list_all isLetter w"
  shows "matchItem num u w = Some (num, u, w)"
proof -
  obtain c cs where w: "w = c # cs"
    using assms(1) by (cases w) auto
  have "takeWhile isWhiteSpace w = []"
    using assms(2) w by (simp add: letter_classes)
  moreover have "\<not> list_ex isLineTerminator w"
    using assms(2) by (auto simp: list_ex_iff list_all_iff letter_classes)
  ultimately show ?thesis
    using assms(1) by (simp add: matchItem_def)
qed

text \<open>
  After the number: the white space is taken whole, the unit group takes the whole
  word first, which leaves nothing for the item; it then gives back the last letter.
\<close>

lemma whiteSpace_then_word:
  assumes "word \<noteq> []" and "list_all isLetter word" and "list_all isWhiteSpace sp"
  shows "takeWhile isWhiteSpace (sp @ word) = sp"
    and "drop (length sp) (sp @ word) = word"
proof -
  obtain c cs where w: "word = c # cs"
    using assms(1) by (cases word) auto
  have "takeWhile isWhiteSpace word = []"
    using assms(2) w by (simp add: letter_classes)
  moreover have "takeWhile isWhiteSpace (sp @ word) = sp @ takeWhile isWhiteSpace word"
    using assms(3) by (intro takeWhile_append2) (simp add: list_all_iff)
  ultimately show "takeWhile isWhiteSpace (sp @ word) = sp"
    by simp
  show "drop (length sp) (sp @ word) = word"
    by simp
qed

lemma matchUnit_long_word:
  assumes "list_all isLetter word" and "2 \<le> length word" and "list_all isWhiteSpace sp"
  shows "matchUnit num (sp @ word) = Some (num, Some (butlast word), [last word])"
proof -
  have ne: "word \<noteq> []"
    using assms(2) by auto
  obtain m where m: "length word = Suc m" "1 \<le> m"
    using assms(2) by (cases "length word") auto
  have tw: "takeWhile isUnitChar word = word"
    using assms(1) by (simp add: list_all_iff letter_classes)
  have "take m (butlast word @ [last word]) = butlast word"
    and "drop m (butlast word @ [last word]) = [last word]"
    using m by simp_all
  then have bl: "take m word = butlast word" "drop m word = [last word]"
    using ne by simp_all
  have "list_all isLetter [last word]"
    using assms(1) ne by (simp add: list_all_iff)
  then have a: "matchItem num (Some (take m word)) (drop m word)
                  = Some (num, Some (butlast word), [last word])"
    unfolding bl by (intro matchItem_letters) simp_all
  have b: "matchItem num (Some (take (Suc m) word)) (drop (Suc m) word) = None"
    using m by (simp add: matchItem_empty)
  have "greedy 1 (length (takeWhile isUnitChar word))
          (\<lambda>j. matchItem num (Some (take j word)) (drop j word))
        = Some (num, Some (butlast word), [last word])"
    unfolding tw m(1) using m(2) a b by (intro greedy_second) simp_all
  then have "(let r' = drop (length sp) (sp @ word)
              in orElse
                   (greedy 1 (length (takeWhile isUnitChar r'))
                      (\<lambda>j. matchItem num (Some (take j r')) (drop j r')))
                   (matchItem num None r'))
             = Some (num, Some (butlast word), [last word])"
    by (simp add: orElse_def)
  then show ?thesis
    unfolding matchUnit_def whiteSpace_then_word(1) [OF ne assms(1,3)]
    by (intro greedy_first) simp_all
qed

lemma matchUnit_one_letter:
  assumes "isLetter c" and "list_all isWhiteSpace sp"
  shows "matchUnit num (sp @ [c]) = Some (num, None, [c])"
proof -
  have l: "list_all isLetter [c]" "[c] \<noteq> []"
    using assms(1) by simp_all
  have tw: "takeWhile isUnitChar [c] = [c]"
    using assms(1) by (simp add: letter_classes)
  have "greedy 1 (length (takeWhile isUnitChar [c]))
          (\<lambda>j. matchItem num (Some (take j [c])) (drop j [c])) = None"
    unfolding tw by (simp add: matchItem_empty)
  moreover have "matchItem num None [c] = Some (num, None, [c])"
    using l by (intro matchItem_letters) simp_all
  ultimately have "(let r' = drop (length sp) (sp @ [c])
              in orElse
                   (greedy 1 (length (takeWhile isUnitChar r'))
                      (\<lambda>j. matchItem num (Some (take j r')) (drop j r')))
                   (matchItem num None r'))
             = Some (num, None, [c])"
    by (simp add: orElse_def)
  then show ?thesis
    unfolding matchUnit_def whiteSpace_then_word(1) [OF l(2,1) assms(2)]
    by (intro greedy_first) simp_all
qed

text \<open>
  The number: the digits are taken whole, then the fraction if there is one. What
  follows the number is white space or a letter, so neither run of digits goes further.
\<close>

lemma ingredientPattern_number:
  assumes "ip \<noteq> []" and "list_all isDigit ip" and "list_all isDigit fp"
    and "num = (if fp = [] then ip else ip @ 46 # fp)"
    and "rest \<noteq> []" and "\<not> isDigit (hd rest)" and "hd rest \<noteq> 46"
    and "matchUnit num rest = Some res"
  shows "ingredientPattern (num @ rest) = Some res"
proof -
  obtain c cs where rest: "rest = c # cs"
    using assms(5) by (cases rest) auto
  have c: "\<not> isDigit c" "c \<noteq> 46"
    using assms(6,7) rest by simp_all
  have ip: "\<forall>x \<in> set ip. isDigit x" and fp: "\<forall>x \<in> set fp. isDigit x"
    using assms(2,3) by (simp_all add: list_all_iff)
  have nd: "\<not> isDigit 46"
    by (simp add: isDigit_def)
  have len: "1 \<le> length ip"
    using assms(1) by (cases ip) auto
  show ?thesis
  proof (cases "fp = []")
    case True
    then have num: "num = ip"
      using assms(4) by simp
    have tw: "takeWhile isDigit (num @ rest) = ip"
      unfolding num rest using ip c by (simp add: takeWhile_append2)
    have "(let r = drop (length ip) (num @ rest)
           in orElse
                (case r of
                   [] \<Rightarrow> None
                 | c # f \<Rightarrow>
                     if c = 46
                     then greedy 1 (length (takeWhile isDigit f)) (\<lambda>j.
                            matchUnit (take (length ip + 1 + j) (num @ rest)) (drop j f))
                     else None)
                (matchUnit (take (length ip) (num @ rest)) r)) = Some res"
      using assms(8) c unfolding num rest by (simp add: orElse_def)
    then show ?thesis
      unfolding ingredientPattern_def tw using len by (intro greedy_first) simp_all
  next
    case False
    then have num: "num = ip @ 46 # fp"
      using assms(4) by simp
    have len2: "1 \<le> length fp"
      using False by (cases fp) auto
    have tw: "takeWhile isDigit (num @ rest) = ip"
      unfolding num using ip nd by (simp add: takeWhile_append2)
    have tw2: "takeWhile isDigit (fp @ rest) = fp"
      unfolding rest using fp c by (simp add: takeWhile_append2)
    have "matchUnit (take (length ip + 1 + length fp) (num @ rest)) (drop (length fp) (fp @ rest))
            = Some res"
      using assms(8) unfolding num by simp
    then have "greedy 1 (length (takeWhile isDigit (fp @ rest))) (\<lambda>j.
                 matchUnit (take (length ip + 1 + j) (num @ rest)) (drop j (fp @ rest)))
               = Some res"
      unfolding tw2 using len2 by (intro greedy_first) simp_all
    then have "(let r = drop (length ip) (num @ rest)
           in orElse
                (case r of
                   [] \<Rightarrow> None
                 | c # f \<Rightarrow>
                     if c = 46
                     then greedy 1 (length (takeWhile isDigit f)) (\<lambda>j.
                            matchUnit (take (length ip + 1 + j) (num @ rest)) (drop j f))
                     else None)
                (matchUnit (take (length ip) (num @ rest)) r)) = Some res"
      unfolding num by (simp add: orElse_def)
    then show ?thesis
      unfolding ingredientPattern_def tw using len by (intro greedy_first) simp_all
  qed
qed

lemma whiteSpace_word_head:
  assumes "word \<noteq> []" and "list_all isLetter word" and "list_all isWhiteSpace sp"
  shows "sp @ word \<noteq> []" and "\<not> isDigit (hd (sp @ word))" and "hd (sp @ word) \<noteq> 46"
proof -
  obtain c cs where w: "word = c # cs"
    using assms(1) by (cases word) auto
  then have c: "isLetter c"
    using assms(2) by simp
  show "sp @ word \<noteq> []"
    using assms(1) by simp
  show "\<not> isDigit (hd (sp @ word))"
    using w c assms(3) by (cases sp) (simp_all add: letter_classes whiteSpace_classes)
  show "hd (sp @ word) \<noteq> 46"
    using w c assms(3) by (cases sp) (simp_all add: letter_classes whiteSpace_classes)
qed

text \<open>A description that is this one line has this one line.\<close>

lemma splitLines_no_line_feed: "10 \<notin> set s \<Longrightarrow> splitLines acc s = [rev acc @ s]"
  by (induction acc s rule: splitLines.induct) auto

lemma linesOf_single:
  assumes "10 \<notin> set l" and "l \<noteq> []" and "\<not> isWhiteSpace (hd l)" and "\<not> isWhiteSpace (last l)"
  shows "linesOf l = [l]"
proof -
  have a: "dropWhile isWhiteSpace l = l"
    using assms(2,3) by (cases l) simp_all
  obtain xs x where l: "l = xs @ [x]"
    using assms(2) by (cases l rule: rev_cases) auto
  then have "dropWhile isWhiteSpace (rev l) = rev l"
    using assms(4) by simp
  with a have "trim l = l"
    by (simp add: trim_def)
  with assms(1,2) show ?thesis
    by (simp add: linesOf_def splitLines_no_line_feed)
qed

lemma digit_line:
  assumes "isDigit c"
  shows "\<not> isIngredientsHeader (c # cs)" and "\<not> isSeparator (c # cs)"
    and "\<not> isInstructionsHeader (c # cs)"
proof -
  have up: "asciiUpper c = c" and ws: "\<not> isWhiteSpace c" and d: "c \<noteq> 45"
    using assms by (simp_all add: digit_classes)
  have r: "48 \<le> c" "c \<le> 57"
    using assms by (simp_all add: isDigit_def)
  show "\<not> isIngredientsHeader (c # cs)"
    using up r by (auto simp: isIngredientsHeader_def startsWithWordCI_def js_def asciiUpper_def
          isLower_def)
  show "\<not> isSeparator (c # cs)"
    using ws d by (simp add: isSeparator_def)
  show "\<not> isInstructionsHeader (c # cs)"
    using up r ws by (auto simp: isInstructionsHeader_def startsWithWordCI_def js_def
          asciiUpper_def isLower_def)
qed

lemma extractIngredients_single:
  assumes "linesOf d = [c # cs]" and "isDigit c" and "hasLetter (c # cs)"
  shows "extractIngredients d = [parseIngredientLine (c # cs)]"
  using assms(3) digit_line [OF assms(2), of cs]
  by (simp add: extractIngredients_def assms(1) candidatesOf_def Let_def)

lemma number_word_line:
  assumes "ip \<noteq> []" and "list_all isDigit ip" and "list_all isDigit fp"
    and "num = (if fp = [] then ip else ip @ 46 # fp)"
    and "word \<noteq> []" and "list_all isLetter word"
    and "list_all isWhiteSpace sp" and "10 \<notin> set sp"
  shows "extractIngredients (num @ sp @ word) = [parseIngredientLine (num @ sp @ word)]"
proof -
  obtain c cs where ip: "ip = c # cs"
    using assms(1) by (cases ip) auto
  then have c: "isDigit c"
    using assms(2) by simp
  define l where "l = num @ sp @ word"
  have hd: "l = c # tl l"
    unfolding l_def using ip assms(4) by simp
  have "last l = last word"
    unfolding l_def using assms(5) by simp
  moreover have "isLetter (last word)"
    using assms(5,6) by (simp add: list_all_iff)
  ultimately have last: "\<not> isWhiteSpace (last l)"
    by (simp add: letter_classes)
  have "10 \<notin> set l"
    unfolding l_def using assms(2,3,4,6,8)
    by (auto simp: list_all_iff dest: letter_classes(6) digit_classes(3))
  moreover have "\<not> isWhiteSpace (hd l)"
    using hd c by (metis digit_classes(1) list.sel(1))
  ultimately have lines: "linesOf l = [c # tl l]"
    using linesOf_single [of l] last hd by auto
  have "hasLetter l"
    unfolding l_def using assms(5,6)
    by (cases word) (auto simp: hasLetter_def list_ex_iff)
  then have "hasLetter (c # tl l)"
    using hd by simp
  from extractIngredients_single [OF lines c this]
  show ?thesis
    using hd unfolding l_def by simp
qed

text \<open>The behaviour in general, for a word of ASCII letters.\<close>

lemma number_word_parsed:
  assumes "ip \<noteq> []" and "list_all isDigit ip" and "list_all isDigit fp"
    and "num = (if fp = [] then ip else ip @ 46 # fp)"
    and "word \<noteq> []" and "list_all isLetter word"
    and "list_all isWhiteSpace sp" and "10 \<notin> set sp"
  shows "extractIngredients (num @ sp @ word) =
           [if 2 \<le> length word
            then \<lparr>quantity = Some (Number num), unit = Some (butlast word), item = [last word]\<rparr>
            else \<lparr>quantity = Some (Number num), unit = None, item = word\<rparr>]"
proof (cases "2 \<le> length word")
  case True
  have "matchUnit num (sp @ word) = Some (num, Some (butlast word), [last word])"
    using assms(6) True assms(7) by (rule matchUnit_long_word)
  then have "ingredientPattern (num @ sp @ word)
               = Some (num, Some (butlast word), [last word])"
    using whiteSpace_word_head [OF assms(5,6,7)]
    by (intro ingredientPattern_number [OF assms(1,2,3,4)]) simp_all
  moreover have "butlast word \<noteq> []"
    using True by (cases word) (auto split: if_splits)
  ultimately have "parseIngredientLine (num @ sp @ word)
          = \<lparr>quantity = Some (Number num), unit = Some (butlast word), item = [last word]\<rparr>"
    by (simp add: parseIngredientLine_def)
  with True show ?thesis
    using number_word_line [OF assms] by simp
next
  case False
  then obtain c where w: "word = [c]"
    using assms(5) by (cases word) (auto simp: not_le less_Suc_eq_le)
  then have c: "isLetter c"
    using assms(6) by simp
  have "matchUnit num (sp @ word) = Some (num, None, word)"
    unfolding w using c assms(7) by (rule matchUnit_one_letter)
  then have "ingredientPattern (num @ sp @ word) = Some (num, None, word)"
    using whiteSpace_word_head [OF assms(5,6,7)]
    by (intro ingredientPattern_number [OF assms(1,2,3,4)]) simp_all
  then have "parseIngredientLine (num @ sp @ word)
          = \<lparr>quantity = Some (Number num), unit = None, item = word\<rparr>"
    by (simp add: parseIngredientLine_def)
  with False show ?thesis
    using number_word_line [OF assms] by simp
qed

text \<open>
  Two lines outside the amended claim: a one-letter word, and a word with a letter that
  is not an ASCII letter (the code unit 241, n with tilde), where the unit stops.
\<close>

lemma two_grams:
  "extractIngredients (js ''2 g'') = [\<lparr>quantity = Some (Finite 2), unit = None, item = js ''g''\<rparr>]"
proof -
  have a: "js ''2'' \<noteq> []" "list_all isDigit (js ''2'')" "list_all isDigit []"
    "js ''2'' = (if [] = [] then js ''2'' else js ''2'' @ 46 # [])"
    "js ''g'' \<noteq> []" "list_all isLetter (js ''g'')"
    "list_all isWhiteSpace (js '' '')" "10 \<notin> set (js '' '')"
    by (simp_all add: js_def isDigit_def isLetter_def isLower_def isWhiteSpace_def)
  have b: "js ''2 g'' = js ''2'' @ js '' '' @ js ''g''" "\<not> 2 \<le> length (js ''g'')"
    by (simp_all add: js_def)
  show ?thesis
    unfolding b(1) using number_word_parsed [OF a] b(2) by (simp add: small_numbers)
qed

lemma two_jalapenos:
  "extractIngredients (js ''2 jalape'' @ [241] @ js ''os'')
     = [\<lparr>quantity = Some (Finite 2), unit = Some (js ''jalape''), item = [241] @ js ''os''\<rparr>]"
proof -
  have l: "linesOf (js ''2 jalape'' @ [241] @ js ''os'') = [50 # js '' jalape'' @ [241] @ js ''os'']"
    by (simp add: linesOf_def js_def trim_def isWhiteSpace_def)
  have d: "isDigit 50" "hasLetter (50 # js '' jalape'' @ [241] @ js ''os'')"
    by (simp_all add: isDigit_def hasLetter_def js_def isLetter_def isLower_def isUpper_def)
  have p: "ingredientPattern (50 # js '' jalape'' @ [241] @ js ''os'')
             = Some (js ''2'', Some (js ''jalape''), [241] @ js ''os'')"
    by (simp add: ingredientPattern_def matchUnit_def matchItem_def orElse_def js_def isDigit_def
          isWhiteSpace_def isUnitChar_def isLetter_def isLower_def isUpper_def
          isLineTerminator_def Let_def)
  have "parseIngredientLine (50 # js '' jalape'' @ [241] @ js ''os'')
          = \<lparr>quantity = Some (Finite 2), unit = Some (js ''jalape''), item = [241] @ js ''os''\<rparr>"
    unfolding parseIngredientLine_def p by (simp add: small_numbers) (simp add: js_def)
  then show ?thesis
    using extractIngredients_single [OF l d] by simp
qed

text \<open>
  C10, as stated, fails: for the line \<^verbatim>\<open>2 g\<close>, a number followed by a single alphabetic
  word, the whole word is the item and the unit is absent; and for the line
  \<^verbatim>\<open>2 jalapenos\<close> written with n with tilde (code unit 241) the unit is \<^verbatim>\<open>jalape\<close> and
  the item is the rest of the word, not its final character.
\<close>

theorem C10_one_letter_word_counterexample:
  "extractIngredients (js ''2 g'') = [\<lparr>quantity = Some (Finite 2), unit = None, item = js ''g''\<rparr>]
   \<and> extractIngredients (js ''2 jalape'' @ [241] @ js ''os'')
       = [\<lparr>quantity = Some (Finite 2), unit = Some (js ''jalape''), item = [241] @ js ''os''\<rparr>]"
  using two_grams two_jalapenos by (rule conjI)

text \<open>
  C10, amended: for every description line consisting of a number (digits, or digits, a
  point and digits), then white space other than a line feed (possibly none), then a
  single word made only of the ASCII letters a-z and A-Z, of at least two letters, and
  nothing else (for example \<^verbatim>\<open>2 eggs\<close>), ingredient extraction returns one ingredient
  with quantity equal to the number as \<^verbatim>\<open>Number\<close> reads it (the double nearest to it,
  which is the number itself whenever that is a double), unit equal to the word with
  its final character removed, and item equal to that final character, because the
  item group takes back the last letter of the unit token. When the word is a single
  ASCII letter, the unit is absent and the item is the whole word.
\<close>

theorem C10_number_word_gives_back_last_letter:
  assumes "ip \<noteq> []" and "list_all isDigit ip" and "list_all isDigit fp"
    and "num = (if fp = [] then ip else ip @ 46 # fp)"
    and "word \<noteq> []" and "list_all isLetter word"
    and "list_all isWhiteSpace sp" and "10 \<notin> set sp"
  shows "extractIngredients (num @ sp @ word) =
           [if 2 \<le> length word
            then \<lparr>quantity = Some (Number num), unit = Some (butlast word), item = [last word]\<rparr>
            else \<lparr>quantity = Some (Number num), unit = None, item = word\<rparr>]"
  using assms by (rule number_word_parsed)

theorem C10_number_word_witness:
  "extractIngredients (js ''2 eggs'')
     = [\<lparr>quantity = Some (Finite 2), unit = Some (js ''egg''), item = js ''s''\<rparr>]
   \<and> extractIngredients (js ''9007199254740993'' @ [9] @ js ''eggs'')
     = [\<lparr>quantity = Some (Finite 9007199254740992), unit = Some (js ''egg''), item = js ''s''\<rparr>]
   \<and> extractIngredients (js ''2.50'' @ js ''g'')
     = [\<lparr>quantity = Some (Finite (5 / 2)), unit = None, item = js ''g''\<rparr>]"
proof -
  have a: "js ''2'' \<noteq> []" "list_all isDigit (js ''2'')" "list_all isDigit []"
    "js ''2'' = (if [] = [] then js ''2'' else js ''2'' @ 46 # [])"
    "js ''eggs'' \<noteq> []" "list_all isLetter (js ''eggs'')"
    "list_all isWhiteSpace (js '' '')" "10 \<notin> set (js '' '')"
    by (simp_all add: js_def isDigit_def isLetter_def isLower_def isWhiteSpace_def)
  have b: "js ''9007199254740993'' \<noteq> []" "list_all isDigit (js ''9007199254740993'')"
    "js ''9007199254740993''
       = (if [] = [] then js ''9007199254740993'' else js ''9007199254740993'' @ 46 # [])"
    "list_all isWhiteSpace [9]" "(10::nat) \<notin> set [9]"
    by (simp_all add: js_def isDigit_def isWhiteSpace_def)
  have c: "list_all isDigit (js ''50'')"
    "js ''2.50'' = (if js ''50'' = [] then js ''2'' else js ''2'' @ 46 # js ''50'')"
    "js ''g'' \<noteq> []" "list_all isLetter (js ''g'')" "list_all isWhiteSpace []" "(10::nat) \<notin> set []"
    by (simp_all add: js_def isDigit_def isLetter_def isLower_def)
  have w: "2 \<le> length (js ''eggs'')" "butlast (js ''eggs'') = js ''egg''"
    "[last (js ''eggs'')] = js ''s''" "\<not> 2 \<le> length (js ''g'')"
    "js ''2 eggs'' = js ''2'' @ js '' '' @ js ''eggs''"
    by (simp_all add: js_def)
  have 1: "extractIngredients (js ''2 eggs'')
     = [\<lparr>quantity = Some (Finite 2), unit = Some (js ''egg''), item = js ''s''\<rparr>]"
    unfolding w(5)
    using C10_number_word_gives_back_last_letter [OF a] w(1,2,3) by (simp add: small_numbers)
  have 2: "extractIngredients (js ''9007199254740993'' @ [9] @ js ''eggs'')
     = [\<lparr>quantity = Some (Finite 9007199254740992), unit = Some (js ''egg''), item = js ''s''\<rparr>]"
    using C10_number_word_gives_back_last_letter [OF b(1,2) a(3) b(3) a(5,6) b(4,5)] w(1,2,3)
    by (simp add: Number_tie_to_even)
  have 3: "extractIngredients (js ''2.50'' @ js ''g'')
     = [\<lparr>quantity = Some (Finite (5 / 2)), unit = None, item = js ''g''\<rparr>]"
    using C10_number_word_gives_back_last_letter [OF a(1,2) c(1,2,3,4,5,6)] w(4)
    by (simp add: Number_fraction)
  show ?thesis
    using 1 2 3 by blast
qed

end
